theory Spec2Isabelle
  imports Main "HOL-Library.Sublist" "HOL-Library.List_Lexorder" "HOL-Library.Char_ord"
begin

section \<open>WordPress to Hugo migration (migrate.py)\<close>

text \<open>
  A shallow embedding of \<^verbatim>\<open>migrate.py\<close>. Python \<^verbatim>\<open>str\<close> values are modelled as
  \<^typ>\<open>string\<close>, read as the UTF-8 bytes of the text (the script opens every file with
  \<^verbatim>\<open>encoding='utf-8'\<close>). \<^verbatim>\<open>startswith\<close>, \<^verbatim>\<open>endswith\<close>, \<^verbatim>\<open>in\<close>, \<^verbatim>\<open>split\<close>, \<^verbatim>\<open>join\<close>
  and \<^verbatim>\<open>replace\<close> with a non-empty pattern commute with the encoding, and the order of
  the bytes is the order of the code points. \<^verbatim>\<open>strip\<close> removes every whitespace
  character of Unicode, each by its encoding. The character classes of \<^verbatim>\<open>\d\<close> and
  \<^verbatim>\<open>title\<close> are tables of the Unicode database that change with its version; they are
  modelled on ASCII: a byte above 127 is neither a digit nor a cased letter here, so the
  model follows Python on paths whose digits and on class names whose letters are ASCII.
\<close>

subsection \<open>Python string operations\<close>

definition startswith :: "string \<Rightarrow> string \<Rightarrow> bool" where
  "startswith s p = prefix p s"

definition endswith :: "string \<Rightarrow> string \<Rightarrow> bool" where
  "endswith s p = prefix (rev p) (rev s)"

text \<open>\<^verbatim>\<open>p in s\<close> on strings: \<open>p\<close> occurs in \<open>s\<close> as a contiguous substring.\<close>

fun contains :: "string \<Rightarrow> string \<Rightarrow> bool" where
  "contains [] p = (p = [])"
| "contains (c # cs) p = (prefix p (c # cs) \<or> contains cs p)"

text \<open>\<^verbatim>\<open>s.split(sep)\<close> for a one-character separator. The result is never empty, so
  the first branch of the case is never taken.\<close>

fun split_on :: "char \<Rightarrow> string \<Rightarrow> string list" where
  "split_on sep [] = [[]]"
| "split_on sep (c # cs) =
     (case split_on sep cs of
        [] \<Rightarrow> [[c]]
      | w # ws \<Rightarrow> (if c = sep then [] # w # ws else (c # w) # ws))"

text \<open>\<^verbatim>\<open>sep.join(xs)\<close>.\<close>

fun join :: "string \<Rightarrow> string list \<Rightarrow> string" where
  "join sep [] = []"
| "join sep [x] = x"
| "join sep (x # y # ys) = x @ sep @ join sep (y # ys)"

text \<open>
  \<^verbatim>\<open>s.replace(old, new)\<close>: every non-overlapping occurrence of \<open>old\<close>, scanning from the
  left. The script only calls it with non-empty literal patterns; for the empty pattern
  (where Python interleaves \<open>new\<close>) this function returns \<open>s\<close> unchanged.
\<close>

function replace :: "string \<Rightarrow> string \<Rightarrow> string \<Rightarrow> string" where
  "replace old new [] = []"
| "replace old new (c # cs) =
     (if old \<noteq> [] \<and> prefix old (c # cs)
      then new @ replace old new (drop (length old) (c # cs))
      else c # replace old new cs)"
  by pat_completeness auto
termination
  by (relation "measure (\<lambda>(old, new, s). length s)") (auto simp: neq_Nil_conv)

text \<open>
  The characters \<^verbatim>\<open>strip\<close> removes, each as its UTF-8 bytes: U+0009 to U+000D, U+001C
  to U+001F, U+0020, U+0085, U+00A0, U+1680, U+2000 to U+200A, U+2028, U+2029, U+202F,
  U+205F and U+3000.
\<close>

definition whitespace :: "string list" where
  "whitespace =
     [[CHR 0x09], [CHR 0x0A], [CHR 0x0B], [CHR 0x0C], [CHR 0x0D],
      [CHR 0x1C], [CHR 0x1D], [CHR 0x1E], [CHR 0x1F], [CHR 0x20],
      [CHR 0xC2, CHR 0x85], [CHR 0xC2, CHR 0xA0],
      [CHR 0xE1, CHR 0x9A, CHR 0x80],
      [CHR 0xE2, CHR 0x80, CHR 0x80], [CHR 0xE2, CHR 0x80, CHR 0x81],
      [CHR 0xE2, CHR 0x80, CHR 0x82], [CHR 0xE2, CHR 0x80, CHR 0x83],
      [CHR 0xE2, CHR 0x80, CHR 0x84], [CHR 0xE2, CHR 0x80, CHR 0x85],
      [CHR 0xE2, CHR 0x80, CHR 0x86], [CHR 0xE2, CHR 0x80, CHR 0x87],
      [CHR 0xE2, CHR 0x80, CHR 0x88], [CHR 0xE2, CHR 0x80, CHR 0x89],
      [CHR 0xE2, CHR 0x80, CHR 0x8A],
      [CHR 0xE2, CHR 0x80, CHR 0xA8], [CHR 0xE2, CHR 0x80, CHR 0xA9],
      [CHR 0xE2, CHR 0x80, CHR 0xAF], [CHR 0xE2, CHR 0x81, CHR 0x9F],
      [CHR 0xE3, CHR 0x80, CHR 0x80]]"

text \<open>
  Removing from the front of \<open>s\<close> every leading occurrence of one of the byte
  sequences \<open>codes\<close>.
\<close>

function strip_left :: "string list \<Rightarrow> string \<Rightarrow> string" where
  "strip_left codes s =
     (case List.find (\<lambda>w. w \<noteq> [] \<and> prefix w s) codes of
        Some w \<Rightarrow> strip_left codes (drop (length w) s)
      | None \<Rightarrow> s)"
  by pat_completeness auto
termination
  by (relation "measure (\<lambda>(codes, s). length s)")
     (auto simp: find_Some_iff prefix_def neq_Nil_conv)

declare strip_left.simps [simp del]

definition lstrip :: "string \<Rightarrow> string" where
  "lstrip s = strip_left whitespace s"

text \<open>A character ends the text when its bytes, read backwards, begin the reversed text.\<close>

definition rstrip :: "string \<Rightarrow> string" where
  "rstrip s = rev (strip_left (map rev whitespace) (rev s))"

definition strip :: "string \<Rightarrow> string" where
  "strip s = rstrip (lstrip s)"

text \<open>
  The regular expression class \<^verbatim>\<open>\d\<close> on ASCII. In a \<^verbatim>\<open>str\<close> pattern Python also takes
  the decimal digits of other scripts; a path that holds such digits is outside this
  model.
\<close>

definition isdigit :: "char \<Rightarrow> bool" where
  "isdigit c = (c \<in> set ''0123456789'')"

definition ascii_lowers :: string where
  "ascii_lowers = ''abcdefghijklmnopqrstuvwxyz''"

definition ascii_uppers :: string where
  "ascii_uppers = ''ABCDEFGHIJKLMNOPQRSTUVWXYZ''"

definition iscased :: "char \<Rightarrow> bool" where
  "iscased c = (c \<in> set ascii_lowers \<or> c \<in> set ascii_uppers)"

definition to_upper :: "char \<Rightarrow> char" where
  "to_upper c = (case map_of (zip ascii_lowers ascii_uppers) c of Some u \<Rightarrow> u | None \<Rightarrow> c)"

definition to_lower :: "char \<Rightarrow> char" where
  "to_lower c = (case map_of (zip ascii_uppers ascii_lowers) c of Some l \<Rightarrow> l | None \<Rightarrow> c)"

text \<open>
  \<^verbatim>\<open>s.title()\<close>: a character that follows a cased character is lower-cased, any other
  character is upper-cased (CPython keeps the flag \<^verbatim>\<open>previous_is_cased\<close>). The cased
  characters here are the ASCII letters; Python also cases the letters of other scripts,
  and a class name that holds such letters is outside this model.
\<close>

fun title_from :: "bool \<Rightarrow> string \<Rightarrow> string" where
  "title_from prev [] = []"
| "title_from prev (c # cs) =
     (if prev then to_lower c else to_upper c) # title_from (iscased c) cs"

definition title :: "string \<Rightarrow> string" where
  "title s = title_from False s"

subsection \<open>The regular expressions of the script\<close>

text \<open>
  \<^verbatim>\<open>re.search(r'/(\d{4})/', s)\<close>: the leftmost position holding a slash, four digits and
  a slash; the result is group 1.
\<close>

fun search_year :: "string \<Rightarrow> string option" where
  "search_year [] = None"
| "search_year (c # cs) =
     (if c = CHR ''/'' \<and> 5 \<le> length cs \<and> list_all isdigit (take 4 cs) \<and> cs ! 4 = CHR ''/''
      then Some (take 4 cs)
      else search_year cs)"

text \<open>
  \<^verbatim>\<open>re.search(r'/(\d{4})/(\d{2})/', s)\<close>: the leftmost match; the result is the pair of
  group 1 (four digits) and group 2 (two digits).
\<close>

fun search_year_month :: "string \<Rightarrow> (string \<times> string) option" where
  "search_year_month [] = None"
| "search_year_month (c # cs) =
     (if c = CHR ''/'' \<and> 8 \<le> length cs \<and> list_all isdigit (take 4 cs) \<and> cs ! 4 = CHR ''/''
         \<and> list_all isdigit (take 2 (drop 5 cs)) \<and> cs ! 7 = CHR ''/''
      then Some (take 4 cs, take 2 (drop 5 cs))
      else search_year_month cs)"

text \<open>\<^verbatim>\<open>re.match(r'\d{4}', s)\<close>: \<open>s\<close> begins with four digits (nothing anchors the end).\<close>

definition match_d4 :: "string \<Rightarrow> bool" where
  "match_d4 s = (4 \<le> length s \<and> list_all isdigit (take 4 s))"

subsection \<open>The parsed document\<close>

text \<open>
  The script reads documents through BeautifulSoup with \<^verbatim>\<open>html.parser\<close>, a library
  outside the repository. Its tree is modelled as far as the script observes it: text
  nodes and elements with a lower-case tag name, attributes and children.
  The parser stores \<^verbatim>\<open>class\<close> as the list of its whitespace-separated tokens and every
  other attribute as a string (a value-less attribute as the empty string). Comments and
  doctypes are not modelled. A soup is the list of its top-level nodes.
\<close>

datatype attr = Class "string list" | Attr string string

datatype node = Text string | Elem string "attr list" "node list"

type_synonym soup = "node list"

text \<open>
  \<^verbatim>\<open>find\<close>: the first descendant, in document order, that satisfies the filter; \<open>None\<close>
  is Python's \<^verbatim>\<open>None\<close>. (A \<^verbatim>\<open>Tag\<close> is always true as a condition, so the script's
  \<^verbatim>\<open>if elem\<close> and \<^verbatim>\<open>a or b\<close> test for \<^verbatim>\<open>None\<close>.)
\<close>

fun find_first :: "(node \<Rightarrow> bool) \<Rightarrow> node list \<Rightarrow> node option" where
  "find_first P [] = None"
| "find_first P (Text s # ns) = find_first P ns"
| "find_first P (Elem t as cs # ns) =
     (if P (Elem t as cs) then Some (Elem t as cs)
      else (case find_first P cs of Some e \<Rightarrow> Some e | None \<Rightarrow> find_first P ns))"

fun is_tag :: "string \<Rightarrow> node \<Rightarrow> bool" where
  "is_tag name (Text s) = False"
| "is_tag name (Elem t as cs) = (t = name)"

text \<open>\<^verbatim>\<open>elem.get('class')\<close>: the token list of the class attribute, if there is one.\<close>

fun get_class :: "attr list \<Rightarrow> string list option" where
  "get_class [] = None"
| "get_class (Class ts # as) = Some ts"
| "get_class (Attr k v # as) = get_class as"

text \<open>\<^verbatim>\<open>elem.get(name)\<close> for an attribute other than \<^verbatim>\<open>class\<close>.\<close>

fun get_attr :: "string \<Rightarrow> attr list \<Rightarrow> string option" where
  "get_attr name [] = None"
| "get_attr name (Class ts # as) = get_attr name as"
| "get_attr name (Attr k v # as) = (if k = name then Some v else get_attr name as)"

text \<open>The filter \<^verbatim>\<open>class_=c\<close> for a single token \<open>c\<close>: one of the element's classes is \<open>c\<close>.\<close>

fun has_class :: "string \<Rightarrow> node \<Rightarrow> bool" where
  "has_class c (Text s) = False"
| "has_class c (Elem t as cs) =
     (case get_class as of None \<Rightarrow> False | Some ts \<Rightarrow> c \<in> set ts)"

definition find_tag :: "string \<Rightarrow> soup \<Rightarrow> node option" where
  "find_tag name sp = find_first (is_tag name) sp"

definition find_tag_class :: "string \<Rightarrow> string \<Rightarrow> soup \<Rightarrow> node option" where
  "find_tag_class name c sp = find_first (\<lambda>n. is_tag name n \<and> has_class c n) sp"

text \<open>
  \<^verbatim>\<open>get_text()\<close> of an \<^verbatim>\<open>h1\<close>, \<^verbatim>\<open>title\<close> or \<^verbatim>\<open>time\<close> element: the text nodes below the
  element, concatenated in document order. Text directly inside a \<^verbatim>\<open>script\<close>, \<^verbatim>\<open>style\<close>,
  \<^verbatim>\<open>template\<close>, \<^verbatim>\<open>rt\<close> or \<^verbatim>\<open>rp\<close> element is left out (BeautifulSoup keeps it in string
  classes of its own, which \<^verbatim>\<open>get_text\<close> of another element does not collect).
\<close>

definition string_containers :: "string list" where
  "string_containers = [''script'', ''style'', ''template'', ''rt'', ''rp'']"

fun text_in :: "string \<Rightarrow> node \<Rightarrow> string" where
  "text_in parent (Text s) = (if parent \<in> set string_containers then [] else s)"
| "text_in parent (Elem t as cs) = concat (map (text_in t) cs)"

definition get_text :: "node \<Rightarrow> string" where
  "get_text n = text_in [] n"

fun attrs_of :: "node \<Rightarrow> attr list" where
  "attrs_of (Text s) = []"
| "attrs_of (Elem t as cs) = as"

fun children_of :: "node \<Rightarrow> node list" where
  "children_of (Text s) = []"
| "children_of (Elem t as cs) = cs"

subsection \<open>Metadata extraction\<close>

text \<open>
  The metadata dictionary has the keys \<^verbatim>\<open>title\<close>, \<^verbatim>\<open>date\<close>, \<^verbatim>\<open>slug\<close>, \<^verbatim>\<open>categories\<close>,
  \<^verbatim>\<open>tags\<close> and \<^verbatim>\<open>type\<close>; a key that is absent is \<open>None\<close>.
\<close>

record metadata =
  md_title :: "string option"
  md_date :: "string option"
  md_slug :: "string option"
  md_categories :: "string list option"
  md_tags :: "string list option"
  md_type :: "string option"

definition clean_slug :: "string list \<Rightarrow> string" where
  "clean_slug path_parts =
     (if 1 < length path_parts then path_parts ! (length path_parts - 2) else ''index'')"

text \<open>The site-name text: a space, an en dash (U+2013, bytes E2 80 93) and \<^verbatim>\<open> Adam Wulf\<close>.\<close>

definition site_suffix :: string where
  "site_suffix = '' '' @ [CHR 0xE2, CHR 0x80, CHR 0x93] @ '' Adam Wulf''"

definition extract_title :: "soup \<Rightarrow> string" where
  "extract_title sp =
     (case find_tag_class ''h1'' ''entry-title'' sp of
        Some title_elem \<Rightarrow> strip (get_text title_elem)
      | None \<Rightarrow>
          (case find_tag ''title'' sp of
             Some title_elem \<Rightarrow> strip (replace site_suffix '''' (get_text title_elem))
           | None \<Rightarrow> ''Untitled''))"

text \<open>
  The date taken from the file path. Both searches must match; the year is group 1 of
  the first search and the value the script calls \<^verbatim>\<open>month\<close> is
  \<^verbatim>\<open>month_pattern.group(1)\<close>, group 1 of the second search.
\<close>

definition date_from_path :: "string \<Rightarrow> string" where
  "date_from_path file_path =
     (case (search_year file_path, search_year_month file_path) of
        (Some year, Some (g1, g2)) \<Rightarrow> year @ ''-'' @ g1 @ ''-01T00:00:00+00:00''
      | _ \<Rightarrow> ''2008-01-01T00:00:00+00:00'')"

text \<open>
  \<open>isofmt\<close> stands for the standard library's
  \<^verbatim>\<open>datetime.fromisoformat(x).strftime('%Y-%m-%dT%H:%M:%S%z')\<close>, with \<open>None\<close> for a
  \<^verbatim>\<open>ValueError\<close>. An empty \<^verbatim>\<open>datetime\<close> attribute is false in Python and takes the
  text branch.
\<close>

definition extract_date :: "(string \<Rightarrow> string option) \<Rightarrow> soup \<Rightarrow> string \<Rightarrow> string" where
  "extract_date isofmt sp file_path =
     (case find_tag_class ''time'' ''entry-date'' sp of
        Some date_elem \<Rightarrow>
          (case get_attr ''datetime'' (attrs_of date_elem) of
             Some date_str \<Rightarrow>
               (if date_str \<noteq> [] then
                  (case isofmt (replace ''Z'' ''+00:00'' date_str) of
                     Some d \<Rightarrow> d
                   | None \<Rightarrow> strip (get_text date_elem))
                else strip (get_text date_elem))
           | None \<Rightarrow> strip (get_text date_elem))
      | None \<Rightarrow> date_from_path file_path)"

definition category_name :: "string \<Rightarrow> string" where
  "category_name cls = title (replace ''-'' '' '' (replace ''category-'' '''' cls))"

definition tag_name :: "string \<Rightarrow> string" where
  "tag_name cls = title (replace ''-'' '' '' (replace ''tag-'' '''' cls))"

text \<open>The loop over the class list, with the two lists it appends to.\<close>

fun scan_classes :: "string list \<Rightarrow> string list \<Rightarrow> string list \<Rightarrow> string list \<times> string list" where
  "scan_classes [] categories tags = (categories, tags)"
| "scan_classes (cls # rest) categories tags =
     (if startswith cls ''category-'' \<and> cls \<noteq> ''category-uncategorized''
      then scan_classes rest (categories @ [category_name cls]) tags
      else if startswith cls ''tag-''
      then scan_classes rest categories (tags @ [tag_name cls])
      else scan_classes rest categories tags)"

text \<open>\<^verbatim>\<open>if xs: metadata[key] = xs\<close>: the key is set only for a non-empty list.\<close>

definition nonempty :: "string list \<Rightarrow> string list option" where
  "nonempty xs = (if xs = [] then None else Some xs)"

definition extract_taxonomy :: "soup \<Rightarrow> string list option \<times> string list option" where
  "extract_taxonomy sp =
     (case find_tag ''article'' sp of
        Some article_elem \<Rightarrow>
          (let classes = (case get_class (attrs_of article_elem) of Some ts \<Rightarrow> ts | None \<Rightarrow> []);
               (categories, tags) = scan_classes classes [] []
           in (nonempty categories, nonempty tags))
      | None \<Rightarrow> (None, None))"

definition extract_post_metadata ::
  "(string \<Rightarrow> string option) \<Rightarrow> soup \<Rightarrow> string \<Rightarrow> metadata" where
  "extract_post_metadata isofmt sp file_path =
     \<lparr> md_title = Some (extract_title sp),
       md_date = Some (extract_date isofmt sp file_path),
       md_slug = Some (clean_slug (split_on CHR ''/'' file_path)),
       md_categories = fst (extract_taxonomy sp),
       md_tags = snd (extract_taxonomy sp),
       md_type = None \<rparr>"

subsection \<open>Serialisation of the tree\<close>

abbreviation dq :: char where "dq \<equiv> CHR 0x22"
abbreviation bslash :: char where "bslash \<equiv> CHR 0x5C"
abbreviation newline :: char where "newline \<equiv> CHR 0x0A"

text \<open>
  \<^verbatim>\<open>str(elem)\<close> is BeautifulSoup's \<^verbatim>\<open>decode()\<close> with the formatter \<^verbatim>\<open>minimal\<close>: in text and
  in attribute values \<^verbatim>\<open>&\<close>, \<^verbatim>\<open><\<close> and \<^verbatim>\<open>>\<close> become entities; text directly inside
  \<^verbatim>\<open>script\<close> or \<^verbatim>\<open>style\<close> is written as it is; the attributes are written sorted by
  name; an attribute value is quoted with double quotes, or with single quotes when it
  holds a double quote and no single quote; a void element without children is written
  \<^verbatim>\<open><br/>\<close>.
\<close>

definition substitute_char :: "char \<Rightarrow> string" where
  "substitute_char c =
     (if c = CHR ''&'' then ''&amp;''
      else if c = CHR ''<'' then ''&lt;''
      else if c = CHR ''>'' then ''&gt;''
      else [c])"

definition substitute_xml :: "string \<Rightarrow> string" where
  "substitute_xml s = concat (map substitute_char s)"

definition quoted_attribute_value :: "string \<Rightarrow> string" where
  "quoted_attribute_value v =
     (if dq \<in> set v then
        (if CHR 0x27 \<in> set v then [dq] @ replace [dq] ''&quot;'' v @ [dq]
         else [CHR 0x27] @ v @ [CHR 0x27])
      else [dq] @ v @ [dq])"

fun attr_string :: "attr \<Rightarrow> string" where
  "attr_string (Class ts) = ''class='' @ quoted_attribute_value (substitute_xml (join '' '' ts))"
| "attr_string (Attr k v) = k @ ''='' @ quoted_attribute_value (substitute_xml v)"

fun attr_name :: "attr \<Rightarrow> string" where
  "attr_name (Class ts) = ''class''"
| "attr_name (Attr k v) = k"

definition attrs_string :: "attr list \<Rightarrow> string" where
  "attrs_string as =
     (if as = [] then [] else '' '' @ join '' '' (map attr_string (sort_key attr_name as)))"

definition void_tags :: "string list" where
  "void_tags = [''area'', ''base'', ''br'', ''col'', ''embed'', ''hr'', ''img'', ''input'',
     ''keygen'', ''link'', ''menuitem'', ''meta'', ''param'', ''source'', ''track'', ''wbr'',
     ''basefont'', ''bgsound'', ''command'', ''frame'', ''image'', ''isindex'', ''nextid'',
     ''spacer'']"

fun serialize_in :: "string \<Rightarrow> node \<Rightarrow> string" where
  "serialize_in parent (Text s) =
     (if parent = ''script'' \<or> parent = ''style'' then s else substitute_xml s)"
| "serialize_in parent (Elem t as cs) =
     (if t \<in> set void_tags \<and> cs = [] then ''<'' @ t @ attrs_string as @ ''/>''
      else ''<'' @ t @ attrs_string as @ ''>'' @ concat (map (serialize_in t) cs)
             @ ''</'' @ t @ ''>'')"

definition to_str :: "node \<Rightarrow> string" where
  "to_str n = serialize_in [] n"

text \<open>The markup of a list of sibling nodes whose parent has the tag \<open>t\<close>.\<close>

definition inner_html :: "string \<Rightarrow> node list \<Rightarrow> string" where
  "inner_html t cs = concat (map (serialize_in t) cs)"

subsection \<open>Content extraction\<close>

text \<open>
  \<^verbatim>\<open>for elem in content_elem.find_all(['script', 'noscript']): elem.decompose()\<close>:
  every \<^verbatim>\<open>script\<close> and \<^verbatim>\<open>noscript\<close> element below the element is removed from the tree.
\<close>

fun remove_scripts :: "node list \<Rightarrow> node list" where
  "remove_scripts [] = []"
| "remove_scripts (Text s # ns) = Text s # remove_scripts ns"
| "remove_scripts (Elem t as cs # ns) =
     (if t = ''script'' \<or> t = ''noscript'' then remove_scripts ns
      else Elem t as (remove_scripts cs) # remove_scripts ns)"

fun decompose_scripts :: "node \<Rightarrow> node" where
  "decompose_scripts (Text s) = Text s"
| "decompose_scripts (Elem t as cs) = Elem t as (remove_scripts cs)"

text \<open>
  \<^verbatim>\<open>re.sub(r'^<div[^>]*class="entry-content"[^>]*>', '', s)\<close>. The pattern is anchored at
  the start and neither \<^verbatim>\<open>[^>]*\<close> crosses a \<^verbatim>\<open>>\<close>, so it matches exactly when \<open>s\<close>
  begins with \<^verbatim>\<open><div\<close>, a \<^verbatim>\<open>>\<close> follows, and the text between \<^verbatim>\<open><div\<close> and the first
  \<^verbatim>\<open>>\<close> holds \<^verbatim>\<open>class="entry-content"\<close>; the match then ends at that first \<^verbatim>\<open>>\<close>.
\<close>

definition class_literal :: string where
  "class_literal = ''class='' @ [dq] @ ''entry-content'' @ [dq]"

definition sub_open_tag :: "string \<Rightarrow> string" where
  "sub_open_tag s =
     (if prefix ''<div'' s \<and> CHR ''>'' \<in> set (drop 4 s)
         \<and> contains (takeWhile (\<lambda>c. c \<noteq> CHR ''>'') (drop 4 s)) class_literal
      then tl (dropWhile (\<lambda>c. c \<noteq> CHR ''>'') (drop 4 s))
      else s)"

text \<open>
  \<^verbatim>\<open>re.sub(r'</div>$', '', s)\<close>: \<^verbatim>\<open>$\<close> matches at the end of the string and before a
  newline that ends the string.
\<close>

definition sub_close_div :: "string \<Rightarrow> string" where
  "sub_close_div s =
     (if endswith s ''</div>'' then take (length s - 6) s
      else if endswith s (''</div>'' @ [newline]) then take (length s - 7) s @ [newline]
      else s)"

definition is_entry_content :: "node \<Rightarrow> bool" where
  "is_entry_content n = (is_tag ''div'' n \<and> has_class ''entry-content'' n)"

definition extract_post_content :: "soup \<Rightarrow> string" where
  "extract_post_content sp =
     (case find_first is_entry_content sp of
        Some content_elem \<Rightarrow>
          (let content_html = to_str (decompose_scripts content_elem);
               content_html = sub_open_tag content_html;
               content_html = sub_close_div (rstrip content_html)
           in strip content_html)
      | None \<Rightarrow> [])"

subsection \<open>The writer\<close>

text \<open>
  The output tree is a map from paths to file contents; the console is the list of the
  lines printed so far. Directories are not modelled (\<^verbatim>\<open>os.makedirs\<close> creates them).
\<close>

record world =
  files :: "string \<rightharpoonup> string"
  console :: "string list"

definition get_str :: "string option \<Rightarrow> string" where
  "get_str v = (case v of Some s \<Rightarrow> s | None \<Rightarrow> [])"

definition quote_item :: "string \<Rightarrow> string" where
  "quote_item x = [dq] @ x @ [dq]"

definition escape_title :: "string \<Rightarrow> string" where
  "escape_title t = replace [dq] [bslash, dq] t"

definition front_matter :: "metadata \<Rightarrow> string list" where
  "front_matter md =
     [''+++'',
      ''title = '' @ [dq] @ escape_title (get_str (md_title md)) @ [dq],
      ''date = '' @ [dq] @ get_str (md_date md) @ [dq],
      ''slug = '' @ [dq] @ get_str (md_slug md) @ [dq]]
     @ (case md_categories md of
          Some cats \<Rightarrow> [''categories = ['' @ join '', '' (map quote_item cats) @ '']'']
        | None \<Rightarrow> [])
     @ (case md_tags md of
          Some tags \<Rightarrow> [''tags = ['' @ join '', '' (map quote_item tags) @ '']'']
        | None \<Rightarrow> [])
     @ [''type = '' @ [dq] @ ''post'' @ [dq], ''+++'']"

definition file_text :: "metadata \<Rightarrow> string \<Rightarrow> string" where
  "file_text md content = join [newline] (front_matter md) @ [newline, newline] @ content"

definition create_hugo_content_file :: "metadata \<Rightarrow> string \<Rightarrow> string \<Rightarrow> world \<Rightarrow> world" where
  "create_hugo_content_file md content output_path w =
     w\<lparr>files := (files w)(output_path \<mapsto> file_text md content)\<rparr>"

subsection \<open>Processing one file\<close>

text \<open>
  \<^verbatim>\<open>a / b\<close> on paths, for a relative segment \<open>b\<close>. Paths are modelled by their strings;
  the normalisation \<^verbatim>\<open>pathlib\<close> applies to odd segments (empty, \<^verbatim>\<open>.\<close>) is not modelled.
\<close>

definition path_join :: "string \<Rightarrow> string \<Rightarrow> string" where
  "path_join a b = a @ ''/'' @ b"

text \<open>
  The destination of a post. As in \<open>date_from_path\<close>, the directory the script calls
  \<^verbatim>\<open>month\<close> is \<^verbatim>\<open>month_match.group(1)\<close>.
\<close>

definition post_output_path :: "string \<Rightarrow> string \<Rightarrow> string \<Rightarrow> string" where
  "post_output_path hugo_content_dir html_file slug =
     (case (search_year html_file, search_year_month html_file) of
        (Some year, Some (g1, g2)) \<Rightarrow>
          path_join (path_join (path_join (path_join hugo_content_dir ''posts'') year) g1)
            (slug @ ''.html'')
      | _ \<Rightarrow> path_join (path_join hugo_content_dir ''posts'') (slug @ ''.html''))"

definition say :: "string \<Rightarrow> world \<Rightarrow> world" where
  "say line w = w\<lparr>console := console w @ [line]\<rparr>"

text \<open>
  \<open>sp\<close> is the parsed content of \<open>html_file\<close>. The result is the returned flag and the
  world after the call.
\<close>

definition process_blog_post ::
  "(string \<Rightarrow> string option) \<Rightarrow> string \<Rightarrow> soup \<Rightarrow> string \<Rightarrow> world \<Rightarrow> bool \<times> world" where
  "process_blog_post isofmt html_file sp hugo_content_dir w =
     (if find_tag ''article'' sp = None \<or> find_first is_entry_content sp = None
      then (False, w)
      else
        (let md = extract_post_metadata isofmt sp html_file;
             content = extract_post_content sp
         in if strip content = []
            then (False, say (''Warning: No content found in '' @ html_file) w)
            else
              (let output_path = post_output_path hugo_content_dir html_file (get_str (md_slug md))
               in (True, say (''Migrated: '' @ html_file @ '' -> '' @ output_path)
                           (create_hugo_content_file md content output_path w)))))"

text \<open>\<^verbatim>\<open>repr\<close> of a string, and \<^verbatim>\<open>str\<close> of a list of strings. Control characters other
  than tab, newline and carriage return are left as they are (Python writes them as
  \<^verbatim>\<open>\xNN\<close>).\<close>

definition repr_char :: "char \<Rightarrow> char \<Rightarrow> string" where
  "repr_char q c =
     (if c = bslash \<or> c = q then [bslash, c]
      else if c = CHR 0x09 then [bslash, CHR ''t'']
      else if c = newline then [bslash, CHR ''n'']
      else if c = CHR 0x0D then [bslash, CHR ''r'']
      else [c])"

definition repr_str :: "string \<Rightarrow> string" where
  "repr_str s =
     (let q = (if CHR 0x27 \<in> set s \<and> dq \<notin> set s then dq else CHR 0x27)
      in [q] @ concat (map (repr_char q) s) @ [q])"

definition str_list :: "string list \<Rightarrow> string" where
  "str_list xs = ''['' @ join '', '' (map repr_str xs) @ '']''"

text \<open>\<^verbatim>\<open>os.path.basename\<close> and \<^verbatim>\<open>os.path.dirname\<close> (posixpath).\<close>

definition basename :: "string \<Rightarrow> string" where
  "basename p = rev (takeWhile (\<lambda>c. c \<noteq> CHR ''/'') (rev p))"

definition dirname :: "string \<Rightarrow> string" where
  "dirname p =
     (let head = rev (dropWhile (\<lambda>c. c \<noteq> CHR ''/'') (rev p))
      in if head \<noteq> [] \<and> \<not> list_all (\<lambda>c. c = CHR ''/'') head
         then rev (dropWhile (\<lambda>c. c = CHR ''/'') (rev head))
         else head)"

text \<open>
  \<^verbatim>\<open>soup.find('div', class_='entry-content') or soup.find('main') or
  soup.find('div', class_='site-content')\<close>.
\<close>

definition find_page_container :: "soup \<Rightarrow> node option" where
  "find_page_container sp =
     (case find_first is_entry_content sp of
        Some e \<Rightarrow> Some e
      | None \<Rightarrow>
          (case find_tag ''main'' sp of
             Some e \<Rightarrow> Some e
           | None \<Rightarrow> find_tag_class ''div'' ''site-content'' sp))"

text \<open>
  \<^verbatim>\<open>extract_post_content(soup)\<close> removes the scripts inside the first
  \<^verbatim>\<open>div.entry-content\<close> of the tree in place. When \<^verbatim>\<open>content_elem\<close> is that element, it
  is the same object, so every later use of \<^verbatim>\<open>content_elem\<close> sees it without its
  scripts; when it is a \<^verbatim>\<open>main\<close> or a \<^verbatim>\<open>site-content\<close> element the tree has no
  \<^verbatim>\<open>div.entry-content\<close> and nothing was removed.
\<close>

definition after_extraction :: "soup \<Rightarrow> node \<Rightarrow> node" where
  "after_extraction sp content_elem =
     (if find_first is_entry_content sp = None then content_elem
      else decompose_scripts content_elem)"

definition page_names :: "string list" where
  "page_names = [''about'', ''projects'', ''open-source'']"

text \<open>
  The content of a static page whose container \<open>found\<close> was located: the lines of
  \<^verbatim>\<open>process_static_page\<close> from \<^verbatim>\<open>content = extract_post_content(soup) or str(content_elem)\<close>
  to the end of the \<^verbatim>\<open>site-content\<close> clean-up.
\<close>

definition static_page_content :: "soup \<Rightarrow> node \<Rightarrow> string" where
  "static_page_content sp found =
     (let extracted = extract_post_content sp;
          content_elem = after_extraction sp found;
          content = (if extracted \<noteq> [] then extracted else to_str content_elem);
          classes = (case get_class (attrs_of content_elem) of Some ts \<Rightarrow> ts | None \<Rightarrow> [])
      in if contains (str_list classes) ''site-content'' then
           (case (case find_first is_entry_content (children_of content_elem) of
                    Some i \<Rightarrow> Some i
                  | None \<Rightarrow> find_tag ''main'' (children_of content_elem)) of
              Some inner_content \<Rightarrow> to_str inner_content
            | None \<Rightarrow> content)
         else content)"

definition process_static_page ::
  "(string \<Rightarrow> string option) \<Rightarrow> string \<Rightarrow> soup \<Rightarrow> string \<Rightarrow> world \<Rightarrow> bool \<times> world" where
  "process_static_page isofmt html_file sp hugo_content_dir w =
     (case find_page_container sp of
        None \<Rightarrow> (False, say (''Warning: No content found for page '' @ html_file) w)
      | Some found \<Rightarrow>
          (let md = extract_post_metadata isofmt sp html_file;
               content = static_page_content sp found;
               page_name = basename (dirname html_file)
           in if page_name \<in> set page_names then
                (let output_path = path_join hugo_content_dir (page_name @ ''.html'');
                     md = md\<lparr>md_type := Some ''page''\<rparr>
                 in (True, say (''Migrated page: '' @ html_file @ '' -> '' @ output_path)
                             (create_hugo_content_file md content output_path w)))
              else (False, w)))"

subsection \<open>The driver\<close>

text \<open>The test \<^verbatim>\<open>main\<close> applies to each path that \<^verbatim>\<open>glob('**/index.html')\<close> yields.\<close>

definition is_post_candidate :: "string \<Rightarrow> bool" where
  "is_post_candidate html_file =
     (endswith html_file ''/index.html'' \<and>
      (let path_parts = split_on CHR ''/'' html_file
       in 4 \<le> length path_parts \<and> match_d4 (path_parts ! (length path_parts - 4))))"

text \<open>
  The first loop of \<^verbatim>\<open>main\<close>, over the files the glob yields (each with its parsed
  content), threading the world and \<^verbatim>\<open>post_count\<close>.
\<close>

fun process_posts ::
  "(string \<Rightarrow> string option) \<Rightarrow> string \<Rightarrow> (string \<times> soup) list \<Rightarrow> world \<times> nat \<Rightarrow> world \<times> nat" where
  "process_posts isofmt dir [] (w, post_count) = (w, post_count)"
| "process_posts isofmt dir ((html_file, sp) # rest) (w, post_count) =
     (if is_post_candidate html_file then
        (case process_blog_post isofmt html_file sp dir w of
           (True, w') \<Rightarrow> process_posts isofmt dir rest (w', post_count + 1)
         | (False, w') \<Rightarrow> process_posts isofmt dir rest (w', post_count))
      else process_posts isofmt dir rest (w, post_count))"

text \<open>
  The second loop, over the three page names; \<open>pages\<close> maps the path of a page file
  that exists to its parsed content.
\<close>

fun process_pages ::
  "(string \<Rightarrow> string option) \<Rightarrow> string \<Rightarrow> string \<Rightarrow> (string \<rightharpoonup> soup) \<Rightarrow> string list
     \<Rightarrow> world \<times> nat \<Rightarrow> world \<times> nat" where
  "process_pages isofmt wp_dir dir pages [] (w, page_count) = (w, page_count)"
| "process_pages isofmt wp_dir dir pages (page_dir # rest) (w, page_count) =
     (let page_file = path_join (path_join wp_dir page_dir) ''index.html''
      in case pages page_file of
           None \<Rightarrow> process_pages isofmt wp_dir dir pages rest (w, page_count)
         | Some sp \<Rightarrow>
             (case process_static_page isofmt page_file sp dir w of
                (True, w') \<Rightarrow> process_pages isofmt wp_dir dir pages rest (w', page_count + 1)
              | (False, w') \<Rightarrow> process_pages isofmt wp_dir dir pages rest (w', page_count)))"

fun str_nat :: "nat \<Rightarrow> string" where
  "str_nat n =
     (if n < 10 then [''0123456789'' ! n]
      else str_nat (n div 10) @ [''0123456789'' ! (n mod 10)])"

datatype run = Exited nat world | Completed nat nat world

text \<open>
  \<^verbatim>\<open>main\<close>: \<open>argv\<close> is \<^verbatim>\<open>sys.argv\<close>, \<open>dir_exists\<close> answers \<^verbatim>\<open>Path.exists\<close> for the two
  directories, \<open>globbed\<close> lists what \<^verbatim>\<open>wp_dir.glob('**/index.html')\<close> yields.
\<close>

definition main ::
  "(string \<Rightarrow> string option) \<Rightarrow> string list \<Rightarrow> (string \<Rightarrow> bool) \<Rightarrow> (string \<times> soup) list
     \<Rightarrow> (string \<rightharpoonup> soup) \<Rightarrow> world \<Rightarrow> run" where
  "main isofmt argv dir_exists globbed pages w =
     (if length argv \<noteq> 3
      then Exited 1 (say ''Usage: python migrate.py <wordpress_export_dir> <hugo_site_dir>'' w)
      else
        (let wp_dir = argv ! 1; hugo_dir = argv ! 2
         in if \<not> dir_exists wp_dir
            then Exited 1 (say (''Error: WordPress export directory '' @ wp_dir @ '' does not exist'') w)
            else if \<not> dir_exists hugo_dir
            then Exited 1 (say (''Error: Hugo site directory '' @ hugo_dir @ '' does not exist'') w)
            else
              (let hugo_content_dir = path_join hugo_dir ''content'';
                   w = say ''Processing blog posts...'' w;
                   (w, post_count) = process_posts isofmt hugo_content_dir globbed (w, 0);
                   w = say (''Migrated '' @ str_nat post_count @ '' blog posts'') w;
                   w = say ''Processing static pages...'' w;
                   (w, page_count) =
                     process_pages isofmt wp_dir hugo_content_dir pages page_names (w, 0);
                   w = say (''Migrated '' @ str_nat page_count @ '' static pages'') w;
                   w = say (''Total migration complete: '' @ str_nat post_count @ '' posts, ''
                              @ str_nat page_count @ '' pages'') w
               in Completed post_count page_count w)))"

subsection \<open>Properties the specification speaks of\<close>

text \<open>
  The definitions of this subsection are not part of the script. They write down what
  the specification's sentences say, so that the script's functions can be compared
  with them.
\<close>

text \<open>A \<^verbatim>\<open>script\<close> or \<^verbatim>\<open>noscript\<close> element occurs somewhere in the nodes.\<close>

fun has_script :: "node list \<Rightarrow> bool" where
  "has_script [] = False"
| "has_script (Text s # ns) = has_script ns"
| "has_script (Elem t as cs # ns) =
     (t = ''script'' \<or> t = ''noscript'' \<or> has_script cs \<or> has_script ns)"

text \<open>
  The specification's candidate pattern \<^verbatim>\<open>.../<digits>/<digits>/<segment>/index.html\<close>
  with a four-digit year as the fourth segment from the end.
\<close>

definition spec_post_path :: "string \<Rightarrow> bool" where
  "spec_post_path p =
     (let parts = split_on CHR ''/'' p; n = length parts
      in 4 \<le> n \<and> parts ! (n - 1) = ''index.html''
         \<and> length (parts ! (n - 4)) = 4 \<and> list_all isdigit (parts ! (n - 4))
         \<and> parts ! (n - 3) \<noteq> [] \<and> list_all isdigit (parts ! (n - 3)))"

text \<open>The specification's category and tag names: the prefix is stripped once.\<close>

definition spec_category_name :: "string \<Rightarrow> string" where
  "spec_category_name cls = title (replace ''-'' '' '' (drop (length ''category-'') cls))"

definition spec_tag_name :: "string \<Rightarrow> string" where
  "spec_tag_name cls = title (replace ''-'' '' '' (drop (length ''tag-'') cls))"

text \<open>The specification's title: the site name is stripped as a suffix.\<close>

definition remove_suffix :: "string \<Rightarrow> string \<Rightarrow> string" where
  "remove_suffix suf s = (if endswith s suf then take (length s - length suf) s else s)"

definition spec_title :: "soup \<Rightarrow> string" where
  "spec_title sp =
     (case find_tag_class ''h1'' ''entry-title'' sp of
        Some title_elem \<Rightarrow> strip (get_text title_elem)
      | None \<Rightarrow>
          (case find_tag ''title'' sp of
             Some title_elem \<Rightarrow> strip (remove_suffix site_suffix (get_text title_elem))
           | None \<Rightarrow> ''Untitled''))"

text \<open>
  A reader for the round trip of the specification. It reads a quoted string up to the
  first double quote that no backslash precedes, turning \<^verbatim>\<open>\"\<close> back into a double
  quote, and gives the string and the text after the closing quote; \<open>None\<close> when no
  quote closes the string. A field is read from a line \<^verbatim>\<open>key = "..."\<close> that ends with the
  closing quote; the title, the date and the slug are read from the second, third and
  fourth line of the file.
\<close>

fun scan_quoted :: "string \<Rightarrow> (string \<times> string) option" where
  "scan_quoted [] = None"
| "scan_quoted (c # cs) =
     (if c = dq then Some ([], cs)
      else (case cs of
              [] \<Rightarrow> None
            | d # ds \<Rightarrow>
                (if c = bslash \<and> d = dq
                 then map_option (\<lambda>(v, r). (dq # v, r)) (scan_quoted ds)
                 else map_option (\<lambda>(v, r). (c # v, r)) (scan_quoted cs))))"

definition read_field :: "string \<Rightarrow> string \<Rightarrow> string option" where
  "read_field key line =
     (if startswith line (key @ '' = '' @ [dq])
      then (case scan_quoted (drop (length key + 4) line) of
              Some (v, r) \<Rightarrow> (if r = [] then Some v else None)
            | None \<Rightarrow> None)
      else None)"

definition read_front_matter :: "string \<Rightarrow> string option \<times> string option \<times> string option" where
  "read_front_matter text =
     (let ls = split_on newline text
      in if length ls < 4 then (None, None, None)
         else (read_field ''title'' (ls ! 1),
               read_field ''date'' (ls ! 2),
               read_field ''slug'' (ls ! 3)))"

text \<open>Undoing the escaping of the title.\<close>

definition unescape_title :: "string \<Rightarrow> string" where
  "unescape_title t = replace [bslash, dq] [dq] t"


text \<open>
  The children of an element that holds nothing, or one text of whitespace and nothing
  else (the parser joins adjacent text into one node).
\<close>

fun blank_nodes :: "node list \<Rightarrow> bool" where
  "blank_nodes [] = True"
| "blank_nodes [Text s] = (lstrip s = [])"
| "blank_nodes ns = False"

text \<open>The elements of a tree: the nodes that \<open>find_first\<close> visits.\<close>

fun subnodes :: "node list \<Rightarrow> node set" where
  "subnodes [] = {}"
| "subnodes (Text s # ns) = subnodes ns"
| "subnodes (Elem t as cs # ns) = insert (Elem t as cs) (subnodes cs \<union> subnodes ns)"

subsection \<open>Example documents\<close>

definition no_iso :: "string \<Rightarrow> string option" where
  "no_iso s = None"

definition empty_world :: world where
  "empty_world = \<lparr> files = Map.empty, console = [] \<rparr>"

text \<open>A post without a \<^verbatim>\<open>time\<close> element.\<close>

definition undated_post :: soup where
  "undated_post =
     [Elem ''article'' [Class [''post'', ''category-travel'']]
        [Elem ''h1'' [Class [''entry-title'']] [Text ''Trip''],
         Elem ''div'' [Class [''entry-content'']] [Elem ''p'' [] [Text ''Hello'']]]]"

text \<open>An about page whose body is in a \<^verbatim>\<open>div.entry-content\<close>.\<close>

definition about_page :: soup where
  "about_page =
     [Elem ''title'' [] [Text (''About'' @ site_suffix)],
      Elem ''div'' [Class [''entry-content'']] [Elem ''p'' [] [Text ''Hello'']]]"

text \<open>An about page whose body is in a \<^verbatim>\<open>main\<close> element that holds a script.\<close>

definition main_page :: soup where
  "main_page =
     [Elem ''main'' [] [Elem ''script'' [] [Text ''track()''], Elem ''p'' [] [Text ''Hello'']]]"

text \<open>A post whose content element carries a second class.\<close>

definition two_class_post :: soup where
  "two_class_post =
     [Elem ''article'' []
        [Elem ''div'' [Class [''entry-content'', ''clearfix'']] [Elem ''p'' [] [Text ''Hi'']]]]"

text \<open>The same post with nothing but whitespace in its content element.\<close>

definition blank_two_class_post :: soup where
  "blank_two_class_post =
     [Elem ''article'' []
        [Elem ''div'' [Class [''entry-content'', ''clearfix'']] [Text [CHR '' '', newline]]]]"

text \<open>
  A post whose plain content element holds only whitespace: a no-break space (U+00A0)
  and a line feed.
\<close>

definition blank_post :: soup where
  "blank_post =
     [Elem ''article'' []
        [Elem ''div'' [Class [''entry-content'']] [Text [CHR 0xC2, CHR 0xA0, newline]]]]"


text \<open>Metadata whose date holds a double quote.\<close>

definition quoted_date_md :: metadata where
  "quoted_date_md =
     \<lparr> md_title = Some (''Say '' @ [dq] @ ''hi'' @ [dq]),
       md_date = Some (''1'' @ [dq] @ ''2''),
       md_slug = Some ''trip'',
       md_categories = None, md_tags = None, md_type = None \<rparr>"

text \<open>Metadata with a quoted title and plain date and slug.\<close>

definition plain_md :: metadata where
  "plain_md =
     \<lparr> md_title = Some (''Say '' @ [dq] @ ''hi'' @ [dq]),
       md_date = Some ''2012-03-15T10:00:00+0000'',
       md_slug = Some ''trip'',
       md_categories = None, md_tags = None, md_type = None \<rparr>"

text \<open>Two metadata that differ in date and slug.\<close>

definition clash_a :: metadata where
  "clash_a =
     \<lparr> md_title = Some ''T'',
       md_date = Some (''x'' @ [dq, newline] @ ''slug = '' @ [dq] @ ''y''),
       md_slug = Some ''z'',
       md_categories = None, md_tags = None, md_type = None \<rparr>"

definition clash_b :: metadata where
  "clash_b =
     \<lparr> md_title = Some ''T'',
       md_date = Some ''x'',
       md_slug = Some (''y'' @ [dq, newline] @ ''slug = '' @ [dq] @ ''z''),
       md_categories = None, md_tags = None, md_type = None \<rparr>"

text \<open>A document whose title names the site in the middle.\<close>

definition archive_page :: soup where
  "archive_page = [Elem ''title'' [] [Text (''Archive'' @ site_suffix @ '' (page 2)'')]]"

text \<open>A document whose title ends with the site name.\<close>

definition foo_page :: soup where
  "foo_page = [Elem ''title'' [] [Text (''Foo'' @ site_suffix)]]"

text \<open>A page whose body is in a \<^verbatim>\<open>div.site-content\<close> that holds a script.\<close>

definition site_page :: soup where
  "site_page =
     [Elem ''div'' [Class [''site-content'']]
        [Elem ''script'' [] [Text ''track()''], Elem ''p'' [] [Text ''Hello'']]]"

text \<open>
  A page whose body is in a \<^verbatim>\<open>main\<close> element of class \<^verbatim>\<open>site-content\<close> that holds a
  script and a further \<^verbatim>\<open>main\<close> element.
\<close>

definition nested_main_page :: soup where
  "nested_main_page =
     [Elem ''main'' [Class [''site-content'']]
        [Elem ''script'' [] [Text ''track()''],
         Elem ''main'' [] [Elem ''script'' [] [Text ''more()''], Elem ''p'' [] [Text ''Hello'']]]]"

text \<open>A post whose plain content element has an \<^verbatim>\<open>id\<close> and holds a script.\<close>

definition scripted_post :: soup where
  "scripted_post =
     [Elem ''article'' []
        [Elem ''div'' [Attr ''id'' ''c'', Class [''entry-content'']]
           [Elem ''script'' [] [Text ''track()''], Elem ''p'' [] [Text ''Hello'']]]]"

section \<open>Evaluation\<close>

text \<open>
  The equation of \<open>strip_left\<close> for the empty text and for a text with a first
  character: on a text that is a variable nothing unfolds.
\<close>

lemma strip_left_Nil: "strip_left codes [] = []"
proof -
  have "List.find (\<lambda>w. w \<noteq> [] \<and> prefix w []) codes = None"
    by (simp add: find_None_iff)
  then show ?thesis by (subst strip_left.simps) simp
qed

lemma strip_left_Cons:
  "strip_left codes (c # s) =
     (case List.find (\<lambda>w. w \<noteq> [] \<and> prefix w (c # s)) codes of
        Some w \<Rightarrow> strip_left codes (drop (length w) (c # s))
      | None \<Rightarrow> c # s)"
  by (rule strip_left.simps)

lemmas str_defs = startswith_def endswith_def whitespace_def strip_left_Nil strip_left_Cons
  lstrip_def rstrip_def strip_def
  isdigit_def ascii_lowers_def ascii_uppers_def iscased_def to_upper_def to_lower_def title_def
  match_d4_def

lemmas dom_defs = find_tag_def find_tag_class_def is_entry_content_def get_text_def
  string_containers_def

lemmas meta_defs = clean_slug_def site_suffix_def extract_title_def date_from_path_def
  extract_date_def category_name_def tag_name_def nonempty_def extract_taxonomy_def
  extract_post_metadata_def

lemmas ser_defs = substitute_char_def substitute_xml_def quoted_attribute_value_def
  attrs_string_def void_tags_def to_str_def inner_html_def class_literal_def sub_open_tag_def
  sub_close_div_def extract_post_content_def

lemmas write_defs = get_str_def quote_item_def escape_title_def front_matter_def file_text_def
  create_hugo_content_file_def

lemmas proc_defs = path_join_def post_output_path_def say_def process_blog_post_def
  repr_char_def repr_str_def str_list_def basename_def dirname_def find_page_container_def
  after_extraction_def page_names_def static_page_content_def process_static_page_def
  is_post_candidate_def

lemmas ex_defs = no_iso_def empty_world_def undated_post_def about_page_def main_page_def
  two_class_post_def blank_two_class_post_def blank_post_def

section \<open>Auxiliary facts\<close>

subsection \<open>Escaping and splitting\<close>

lemma escape_title_Nil: "escape_title [] = []"
  by (simp add: escape_title_def)

lemma escape_title_Cons:
  "escape_title (c # cs) = (if c = dq then bslash # dq # escape_title cs else c # escape_title cs)"
  by (simp add: escape_title_def)



lemma escape_title_hd: "escape_title t \<noteq> [] \<Longrightarrow> hd (escape_title t) \<noteq> dq"
  by (cases t) (simp_all add: escape_title_Nil escape_title_Cons)

lemma unescape_escape: "unescape_title (escape_title t) = t"
proof (induction t)
  case Nil
  then show ?case by (simp add: unescape_title_def escape_title_Nil)
next
  case (Cons c cs)
  have nd: "\<not> prefix [dq] (escape_title cs)"
    using escape_title_hd[of cs] by (cases "escape_title cs") simp_all
  show ?case
  proof (cases "c = dq")
    case True
    with Cons show ?thesis by (simp add: unescape_title_def escape_title_Cons)
  next
    case False
    with Cons nd show ?thesis by (simp add: unescape_title_def escape_title_Cons)
  qed
qed

lemma escape_title_inj: "inj escape_title"
  by (rule inj_on_inverseI[where g = unescape_title]) (simp add: unescape_escape)

lemma escape_title_set: "set (escape_title t) \<subseteq> set t \<union> {bslash}"
  by (induction t) (auto simp: escape_title_Nil escape_title_Cons)

lemma split_on_nonempty: "split_on sep s \<noteq> []"
  by (induction s) (auto split: list.splits)

lemma split_on_sep_Cons: "split_on sep (sep # b) = [] # split_on sep b"
  using split_on_nonempty[of sep b] by (auto split: list.splits)

lemma split_on_append: "sep \<notin> set a \<Longrightarrow> split_on sep (a @ sep # b) = a # split_on sep b"
proof (induction a)
  case Nil
  then show ?case by (simp only: append_Nil split_on_sep_Cons)
next
  case (Cons c a)
  then show ?case by (auto split: list.splits)
qed

subsection \<open>The written file, line by line\<close>

lemma join_Cons_nonempty: "ys \<noteq> [] \<Longrightarrow> join sep (x # ys) = x @ sep @ join sep ys"
  by (cases ys) simp_all

lemma front_matter_shape:
  "\<exists>rest. rest \<noteq> [] \<and> front_matter md =
     [''+++'',
      ''title = '' @ [dq] @ escape_title (get_str (md_title md)) @ [dq],
      ''date = '' @ [dq] @ get_str (md_date md) @ [dq],
      ''slug = '' @ [dq] @ get_str (md_slug md) @ [dq]] @ rest"
  by (simp add: front_matter_def split: option.splits)

lemma file_text_shape:
  "\<exists>tail. file_text md content =
     ''+++'' @ [newline]
     @ (''title = '' @ [dq] @ escape_title (get_str (md_title md)) @ [dq]) @ [newline]
     @ (''date = '' @ [dq] @ get_str (md_date md) @ [dq]) @ [newline]
     @ (''slug = '' @ [dq] @ get_str (md_slug md) @ [dq]) @ [newline] @ tail"
proof -
  obtain rest where r: "rest \<noteq> []" and fm: "front_matter md =
     [''+++'',
      ''title = '' @ [dq] @ escape_title (get_str (md_title md)) @ [dq],
      ''date = '' @ [dq] @ get_str (md_date md) @ [dq],
      ''slug = '' @ [dq] @ get_str (md_slug md) @ [dq]] @ rest"
    using front_matter_shape by blast
  show ?thesis
    unfolding file_text_def fm using r
    by (simp add: join_Cons_nonempty)
qed

lemma split_file_text:
  assumes "newline \<notin> set (get_str (md_title md))"
    and "newline \<notin> set (get_str (md_date md))"
    and "newline \<notin> set (get_str (md_slug md))"
  shows "\<exists>more. split_on newline (file_text md content) =
     ''+++''
     # (''title = '' @ [dq] @ escape_title (get_str (md_title md)) @ [dq])
     # (''date = '' @ [dq] @ get_str (md_date md) @ [dq])
     # (''slug = '' @ [dq] @ get_str (md_slug md) @ [dq]) # more"
proof -
  obtain tail where ft: "file_text md content =
     ''+++'' @ [newline]
     @ (''title = '' @ [dq] @ escape_title (get_str (md_title md)) @ [dq]) @ [newline]
     @ (''date = '' @ [dq] @ get_str (md_date md) @ [dq]) @ [newline]
     @ (''slug = '' @ [dq] @ get_str (md_slug md) @ [dq]) @ [newline] @ tail"
    using file_text_shape by blast
  have t: "newline \<notin> set (''title = '' @ [dq] @ escape_title (get_str (md_title md)) @ [dq])"
    using assms(1) escape_title_set[of "get_str (md_title md)"] by auto
  have d: "newline \<notin> set (''date = '' @ [dq] @ get_str (md_date md) @ [dq])"
    using assms(2) by simp
  have s: "newline \<notin> set (''slug = '' @ [dq] @ get_str (md_slug md) @ [dq])"
    using assms(3) by simp
  have p: "newline \<notin> set ''+++''" by simp
  show ?thesis
    unfolding ft
    using split_on_append[OF p] split_on_append[OF t] split_on_append[OF d] split_on_append[OF s]
    by simp
qed

lemma escape_title_absent: "dq \<notin> set t \<Longrightarrow> escape_title t = t"
  by (induction t) (auto simp: escape_title_Nil escape_title_Cons)

lemma escape_title_empty: "escape_title t = [] \<Longrightarrow> t = []"
  by (cases t) (simp_all add: escape_title_Cons split: if_splits)

lemma scan_quoted_escape:
  "t = [] \<or> last t \<noteq> bslash \<Longrightarrow> scan_quoted (escape_title t @ dq # r) = Some (t, r)"
proof (induction t)
  case Nil
  then show ?case by (simp add: escape_title_Nil)
next
  case (Cons c cs)
  from Cons.prems have tl: "cs = [] \<or> last cs \<noteq> bslash" by (cases cs) simp_all
  note ih = Cons.IH[OF tl]
  show ?case
  proof (cases "c = dq")
    case True
    then show ?thesis using ih by (simp add: escape_title_Cons)
  next
    case False
    obtain d ds where dd: "escape_title cs @ dq # r = d # ds"
      by (cases "escape_title cs @ dq # r") simp_all
    have nb: "\<not> (c = bslash \<and> d = dq)"
    proof
      assume a: "c = bslash \<and> d = dq"
      have "escape_title cs = []"
      proof (rule ccontr)
        assume ne: "escape_title cs \<noteq> []"
        then have "hd (escape_title cs) = d" using dd by (cases "escape_title cs") simp_all
        with a escape_title_hd[OF ne] show False by simp
      qed
      then have "cs = []" by (rule escape_title_empty)
      with a Cons.prems show False by simp
    qed
    have "scan_quoted (c # d # ds) = map_option (\<lambda>(v, r). (c # v, r)) (scan_quoted (d # ds))"
      using False nb by simp
    then show ?thesis using False ih dd by (simp add: escape_title_Cons)
  qed
qed

lemma read_field_escaped:
  assumes "t = [] \<or> last t \<noteq> bslash"
  shows "read_field key (key @ '' = '' @ [dq] @ escape_title t @ [dq]) = Some t"
  using scan_quoted_escape[OF assms, of "[]"]
  by (simp add: read_field_def startswith_def)

lemma read_field_plain:
  assumes "dq \<notin> set v" and "v = [] \<or> last v \<noteq> bslash"
  shows "read_field key (key @ '' = '' @ [dq] @ v @ [dq]) = Some v"
  using read_field_escaped[OF assms(2), of key] escape_title_absent[OF assms(1)] by simp

lemma read_front_matter_file_text:
  assumes "newline \<notin> set (get_str (md_title md))"
    and "newline \<notin> set (get_str (md_date md))"
    and "newline \<notin> set (get_str (md_slug md))"
    and "get_str (md_title md) = [] \<or> last (get_str (md_title md)) \<noteq> bslash"
    and "dq \<notin> set (get_str (md_date md))"
    and "get_str (md_date md) = [] \<or> last (get_str (md_date md)) \<noteq> bslash"
    and "dq \<notin> set (get_str (md_slug md))"
    and "get_str (md_slug md) = [] \<or> last (get_str (md_slug md)) \<noteq> bslash"
  shows "read_front_matter (file_text md content) =
     (Some (get_str (md_title md)), Some (get_str (md_date md)), Some (get_str (md_slug md)))"
proof -
  obtain more where sp: "split_on newline (file_text md content) =
     ''+++''
     # (''title = '' @ [dq] @ escape_title (get_str (md_title md)) @ [dq])
     # (''date = '' @ [dq] @ get_str (md_date md) @ [dq])
     # (''slug = '' @ [dq] @ get_str (md_slug md) @ [dq]) # more"
    using split_file_text[OF assms(1,2,3)] by blast
  show ?thesis
    unfolding read_front_matter_def sp
    using read_field_escaped[OF assms(4), of "''title''"]
      read_field_plain[OF assms(5,6), of "''date''"]
      read_field_plain[OF assms(7,8), of "''slug''"]
    by simp
qed





subsection \<open>Substrings and replacement\<close>

lemma contains_iff: "contains s p \<longleftrightarrow> (\<exists>a b. s = a @ p @ b)"
proof (induction s)
  case Nil
  then show ?case by auto
next
  case (Cons c cs)
  show ?case
  proof
    assume "contains (c # cs) p"
    then consider "prefix p (c # cs)" | "contains cs p" by auto
    then show "\<exists>a b. c # cs = a @ p @ b"
    proof cases
      case 1
      then obtain b where "c # cs = p @ b" by (auto simp: prefix_def)
      then have "c # cs = [] @ p @ b" by simp
      then show ?thesis by blast
    next
      case 2
      with Cons obtain a b where "cs = a @ p @ b" by blast
      then have "c # cs = (c # a) @ p @ b" by simp
      then show ?thesis by blast
    qed
  next
    assume "\<exists>a b. c # cs = a @ p @ b"
    then obtain a b where ab: "c # cs = a @ p @ b" by blast
    show "contains (c # cs) p"
    proof (cases a)
      case Nil
      with ab have "prefix p (c # cs)" by (simp add: prefix_def)
      then show ?thesis by simp
    next
      case (Cons x a')
      with ab have "cs = a' @ p @ b" by simp
      with Cons.IH have "contains cs p" by blast
      then show ?thesis by simp
    qed
  qed
qed

lemma replace_absent: "\<not> contains s old \<Longrightarrow> replace old new s = s"
  by (induction s) auto

lemma prefix_append_long: "length p \<le> length a \<Longrightarrow> prefix p (a @ b) = prefix p a"
  by (auto simp: prefix_append)

lemma replace_prefix: "old \<noteq> [] \<Longrightarrow> replace old new (old @ y) = new @ replace old new y"
  by (cases old) simp_all

lemma replace_at_first:
  assumes "old \<noteq> []" and "\<not> contains (x @ butlast old) old"
  shows "replace old new (x @ old @ y) = x @ new @ replace old new y"
  using assms(2)
proof (induction x)
  case Nil
  then show ?case using replace_prefix[OF assms(1)] by simp
next
  case (Cons c x)
  then have np: "\<not> prefix old (c # x @ butlast old)" and nc: "\<not> contains (x @ butlast old) old"
    by auto
  have len: "length old \<le> length (c # x @ butlast old)" by simp
  have eq: "c # x @ old @ y = (c # x @ butlast old) @ (last old # y)"
    using assms(1) by simp
  have "prefix old (c # x @ old @ y) = prefix old ((c # x @ butlast old) @ (last old # y))"
    by (simp only: eq)
  also have "\<dots> = prefix old (c # x @ butlast old)"
    by (rule prefix_append_long[OF len])
  finally have "prefix old (c # x @ old @ y) = prefix old (c # x @ butlast old)" .
  with np have "\<not> prefix old (c # x @ old @ y)" by simp
  with Cons.IH[OF nc] show ?case by simp
qed

lemma replace_only_occurrence:
  assumes "old \<noteq> []" and "\<not> contains (x @ butlast old) old" and "\<not> contains y old"
  shows "replace old [] (x @ old @ y) = x @ y"
  using replace_at_first[OF assms(1,2), of "[]" y] replace_absent[OF assms(3)] by simp

subsection \<open>Path segments\<close>

lemma split_on_no_sep: "sep \<notin> set t \<Longrightarrow> split_on sep t = [t]"
  by (induction t) auto

lemma split_on_snoc: "sep \<notin> set t \<Longrightarrow> split_on sep (q @ sep # t) = split_on sep q @ [t]"
proof (induction q)
  case Nil
  then show ?case by (simp add: split_on_no_sep)
next
  case (Cons c q)
  then show ?case using split_on_nonempty[of sep q] by (cases "split_on sep q") auto
qed

lemma join_Cons_Cons: "join sep ((c # w) # ws) = c # join sep (w # ws)"
  by (cases ws) simp_all

lemma join_split_on: "join [sep] (split_on sep s) = s"
proof (induction s)
  case Nil
  then show ?case by simp
next
  case (Cons c s)
  obtain w ws where ws: "split_on sep s = w # ws"
    using split_on_nonempty[of sep s] by (cases "split_on sep s") auto
  with Cons show ?case by (auto simp: join_Cons_Cons join_Cons_nonempty)
qed

lemma join_snoc: "bl \<noteq> [] \<Longrightarrow> join sep (bl @ [l]) = join sep bl @ sep @ l"
  by (induction sep bl rule: join.induct) simp_all

lemma endswith_iff: "endswith s t \<longleftrightarrow> (\<exists>q. s = q @ t)"
proof
  assume "endswith s t"
  then obtain r where "rev s = rev t @ r" by (auto simp: endswith_def prefix_def)
  then have "s = rev r @ t" by (metis rev_append rev_rev_ident)
  then show "\<exists>q. s = q @ t" by blast
next
  assume "\<exists>q. s = q @ t"
  then show "endswith s t" by (auto simp: endswith_def)
qed

lemma endswith_segment:
  assumes "sep \<notin> set t"
  shows "endswith p (sep # t) \<longleftrightarrow> (2 \<le> length (split_on sep p) \<and> last (split_on sep p) = t)"
proof
  assume "endswith p (sep # t)"
  then obtain q where "p = q @ sep # t" by (auto simp: endswith_iff)
  then have "split_on sep p = split_on sep q @ [t]" using assms by (simp add: split_on_snoc)
  then show "2 \<le> length (split_on sep p) \<and> last (split_on sep p) = t"
    using split_on_nonempty[of sep q] by (cases "split_on sep q") simp_all
next
  assume a: "2 \<le> length (split_on sep p) \<and> last (split_on sep p) = t"
  define parts where "parts = split_on sep p"
  from a have ne: "butlast parts \<noteq> []" and l: "last parts = t" and pn: "parts \<noteq> []"
    unfolding parts_def by (cases "split_on sep p"; cases "tl (split_on sep p)"; auto)+
  have "p = join [sep] parts" by (simp add: parts_def join_split_on)
  also have "parts = butlast parts @ [t]" using pn l by (metis append_butlast_last_id)
  also have "join [sep] (butlast parts @ [t]) = join [sep] (butlast parts) @ [sep] @ t"
    by (rule join_snoc[OF ne])
  finally have "p = join [sep] (butlast parts) @ sep # t" by simp
  then show "endswith p (sep # t)" by (auto simp: endswith_iff)
qed

lemma is_post_candidate_iff:
  "is_post_candidate p \<longleftrightarrow>
     (let parts = split_on CHR ''/'' p; n = length parts
      in 4 \<le> n \<and> parts ! (n - 1) = ''index.html'' \<and> match_d4 (parts ! (n - 4)))"
proof -
  have e: "endswith p ''/index.html'' \<longleftrightarrow>
      (2 \<le> length (split_on CHR ''/'' p) \<and> last (split_on CHR ''/'' p) = ''index.html'')"
    using endswith_segment[of "CHR ''/''" "''index.html''" p] by simp
  have l: "last (split_on CHR ''/'' p) = split_on CHR ''/'' p ! (length (split_on CHR ''/'' p) - 1)"
    using split_on_nonempty[of "CHR ''/''" p] by (simp add: last_conv_nth)
  show ?thesis
    unfolding is_post_candidate_def e l Let_def by auto
qed

lemma match_d4_year: "length s = 4 \<Longrightarrow> list_all isdigit s \<Longrightarrow> match_d4 s"
  by (simp add: match_d4_def)

lemma spec_post_path_candidate: "spec_post_path p \<Longrightarrow> is_post_candidate p"
  unfolding is_post_candidate_iff spec_post_path_def Let_def
  by (auto intro: match_d4_year)

subsection \<open>Serialised elements and the wrapper patterns\<close>

lemma find_first_Some: "find_first P ns = Some e \<Longrightarrow> P e"
  by (induction P ns rule: find_first.induct) (auto split: if_splits option.splits)

lemma set_replace: "set (replace old new s) \<subseteq> set s \<union> set new"
proof (induction old new s rule: replace.induct)
  case (1 old new)
  then show ?case by simp
next
  case (2 old new c cs)
  show ?case
  proof (cases "old \<noteq> [] \<and> prefix old (c # cs)")
    case True
    with 2 have "set (replace old new (drop (length old) (c # cs)))
        \<subseteq> set (drop (length old) (c # cs)) \<union> set new" by simp
    moreover have "set (drop (length old) (c # cs)) \<subseteq> set (c # cs)" by (rule set_drop_subset)
    ultimately show ?thesis using True by auto
  next
    case False
    with 2 show ?thesis by auto
  qed
qed

lemma gt_substitute_xml: "CHR ''>'' \<notin> set (substitute_xml s)"
  by (induction s) (auto simp: substitute_xml_def substitute_char_def)

lemma gt_quoted: "CHR ''>'' \<notin> set v \<Longrightarrow> CHR ''>'' \<notin> set (quoted_attribute_value v)"
  using set_replace[of "[dq]" "''&quot;''" v] by (auto simp: quoted_attribute_value_def)

lemma gt_join:
  "CHR ''>'' \<notin> set sep \<Longrightarrow> \<forall>x \<in> set xs. CHR ''>'' \<notin> set x \<Longrightarrow> CHR ''>'' \<notin> set (join sep xs)"
  by (induction sep xs rule: join.induct) auto

lemma gt_attr_string:
  assumes "\<And>k v. a = Attr k v \<Longrightarrow> CHR ''>'' \<notin> set k"
  shows "CHR ''>'' \<notin> set (attr_string a)"
proof (cases a)
  case (Class ts)
  then show ?thesis using gt_quoted[OF gt_substitute_xml] by simp
next
  case (Attr k v)
  then show ?thesis using assms gt_quoted[OF gt_substitute_xml] by simp
qed

lemma gt_attrs_string:
  assumes "\<forall>k v. Attr k v \<in> set as \<longrightarrow> CHR ''>'' \<notin> set k"
  shows "CHR ''>'' \<notin> set (attrs_string as)"
proof -
  have "\<forall>x \<in> set (map attr_string (sort_key attr_name as)). CHR ''>'' \<notin> set x"
    using assms by (auto intro!: gt_attr_string)
  then have "CHR ''>'' \<notin> set (join '' '' (map attr_string (sort_key attr_name as)))"
    by (intro gt_join) simp_all
  then show ?thesis by (simp add: attrs_string_def)
qed

lemma get_class_mem: "get_class as = Some ts \<Longrightarrow> Class ts \<in> set as"
  by (induction as rule: get_class.induct) auto

lemma contains_self: "contains p p"
  unfolding contains_iff by (metis append_Nil append_Nil2)

lemma contains_append: "contains s p \<Longrightarrow> contains (a @ s @ b) p"
  unfolding contains_iff by (metis append.assoc)

lemma contains_join: "x \<in> set xs \<Longrightarrow> contains (join sep xs) x"
proof (induction sep xs rule: join.induct)
  case (1 sep)
  then show ?case by simp
next
  case (2 sep y)
  then show ?case by (simp add: contains_self)
next
  case (3 sep y z zs)
  show ?case
  proof (cases "x = y")
    case True
    have "contains ([] @ y @ (sep @ join sep (z # zs))) y"
      by (rule contains_append[OF contains_self])
    with True show ?thesis by simp
  next
    case False
    with 3 have "contains (join sep (z # zs)) x" by auto
    then have "contains ((y @ sep) @ join sep (z # zs) @ []) x" by (rule contains_append)
    then show ?thesis by simp
  qed
qed

lemma class_literal_attr: "attr_string (Class [''entry-content'']) = class_literal"
  by (simp add: class_literal_def quoted_attribute_value_def substitute_xml_def
        substitute_char_def)

lemma contains_class_literal:
  assumes "get_class as = Some [''entry-content'']"
  shows "contains (attrs_string as) class_literal"
proof -
  have m: "class_literal \<in> set (map attr_string (sort_key attr_name as))"
    using get_class_mem[OF assms] class_literal_attr by force
  then have ne: "as \<noteq> []" by auto
  have "contains (join '' '' (map attr_string (sort_key attr_name as))) class_literal"
    by (rule contains_join[OF m])
  then have "contains ('' '' @ join '' '' (map attr_string (sort_key attr_name as)) @ [])
      class_literal"
    by (rule contains_append)
  with ne show ?thesis by (simp add: attrs_string_def)
qed

lemma to_str_div:
  "to_str (Elem ''div'' as cs) = ''<div'' @ attrs_string as @ ''>'' @ inner_html ''div'' cs @ ''</div>''"
  by (simp add: to_str_def inner_html_def void_tags_def)

lemma sub_open_tag_div:
  assumes "CHR ''>'' \<notin> set a" and "contains a class_literal"
  shows "sub_open_tag (''<div'' @ a @ ''>'' @ r) = r"
proof -
  have tw: "takeWhile (\<lambda>c. c \<noteq> CHR ''>'') (a @ CHR ''>'' # r) = a"
    using assms(1) by (induction a) auto
  have dw: "dropWhile (\<lambda>c. c \<noteq> CHR ''>'') (a @ CHR ''>'' # r) = CHR ''>'' # r"
    using assms(1) by (induction a) auto
  show ?thesis using assms(2) by (simp add: sub_open_tag_def tw dw)
qed

lemma strip_left_gt:
  "strip_left (map rev whitespace) (CHR ''>'' # r) = CHR ''>'' # r"
  by (subst strip_left.simps) (simp add: whitespace_def)

lemma rstrip_div: "rstrip (x @ ''</div>'') = x @ ''</div>''"
  by (simp add: rstrip_def strip_left_gt)

lemma sub_close_div_div: "sub_close_div (x @ ''</div>'') = x"
  by (simp add: sub_close_div_def endswith_def)

lemma no_script_left: "\<not> has_script (remove_scripts ns)"
  by (induction ns rule: remove_scripts.induct) auto


lemma extract_post_content_plain:
  assumes f: "find_first is_entry_content sp = Some (Elem t as cs)"
    and c: "get_class as = Some [''entry-content'']"
    and n: "\<forall>k v. Attr k v \<in> set as \<longrightarrow> CHR ''>'' \<notin> set k"
  shows "extract_post_content sp = strip (inner_html ''div'' (remove_scripts cs))"
proof -
  have t: "t = ''div''"
    using find_first_Some[OF f] by (simp add: is_entry_content_def)
  have s: "to_str (decompose_scripts (Elem t as cs))
      = ''<div'' @ attrs_string as @ ''>'' @ (inner_html ''div'' (remove_scripts cs) @ ''</div>'')"
    unfolding t decompose_scripts.simps to_str_div by simp
  have o: "sub_open_tag (''<div'' @ attrs_string as @ ''>''
        @ (inner_html ''div'' (remove_scripts cs) @ ''</div>''))
      = inner_html ''div'' (remove_scripts cs) @ ''</div>''"
    by (rule sub_open_tag_div[OF gt_attrs_string[OF n] contains_class_literal[OF c]])
  show ?thesis
    unfolding extract_post_content_def f option.case Let_def s o rstrip_div sub_close_div_div ..
qed

lemma no_site_content: "\<not> contains (str_list [''entry-content'']) ''site-content''"
  by (simp add: str_list_def repr_str_def repr_char_def Let_def)

lemma static_page_content_plain:
  assumes f: "find_first is_entry_content sp = Some (Elem t as cs)"
    and c: "get_class as = Some [''entry-content'']"
    and e: "extract_post_content sp \<noteq> []"
  shows "static_page_content sp (Elem t as cs) = extract_post_content sp"
  using e no_site_content
  by (simp add: static_page_content_def after_extraction_def f c Let_def)

lemma find_first_None_iff: "find_first P ns = None \<longleftrightarrow> (\<forall>e \<in> subnodes ns. \<not> P e)"
  by (induction P ns rule: find_first.induct) (auto split: option.splits)

lemma find_first_mem: "find_first P ns = Some e \<Longrightarrow> e \<in> subnodes ns"
  by (induction P ns rule: find_first.induct) (auto split: if_splits option.splits)

lemma subnodes_children: "e \<in> subnodes ns \<Longrightarrow> subnodes (children_of e) \<subseteq> subnodes ns"
  by (induction ns rule: subnodes.induct) auto

lemma find_first_inside:
  assumes "find_first P ns = None" and "e \<in> subnodes ns"
  shows "find_first P (children_of e) = None"
  using assms subnodes_children[OF assms(2)] unfolding find_first_None_iff by blast

lemma find_page_container_mem: "find_page_container sp = Some e \<Longrightarrow> e \<in> subnodes sp"
  by (auto simp: find_page_container_def find_tag_def find_tag_class_def
        dest: find_first_mem split: option.splits)

lemma static_page_content_fallback:
  assumes f: "find_first is_entry_content sp = None"
    and p: "find_page_container sp = Some (Elem t as cs)"
  shows "static_page_content sp (Elem t as cs) =
     (if contains (str_list (case get_class as of Some ts \<Rightarrow> ts | None \<Rightarrow> [])) ''site-content''
      then (case find_tag ''main'' cs of
              Some inner \<Rightarrow> to_str inner
            | None \<Rightarrow> to_str (Elem t as cs))
      else to_str (Elem t as cs))"
proof -
  have "find_first is_entry_content (children_of (Elem t as cs)) = None"
    by (rule find_first_inside[OF f find_page_container_mem[OF p]])
  then have i: "find_first is_entry_content cs = None" by simp
  show ?thesis
    by (simp add: static_page_content_def after_extraction_def extract_post_content_def f i
          Let_def split: option.splits)
qed

lemma static_page_content_element:
  assumes f: "find_first is_entry_content sp = None"
    and p: "find_page_container sp = Some (Elem t as cs)"
  shows "\<exists>e. e \<in> subnodes sp \<and> (is_tag t e \<or> is_tag ''main'' e)
           \<and> static_page_content sp (Elem t as cs) = to_str e"
proof -
  have m: "Elem t as cs \<in> subnodes sp" by (rule find_page_container_mem[OF p])
  show ?thesis
  proof (cases "contains (str_list (case get_class as of Some ts \<Rightarrow> ts | None \<Rightarrow> [])) ''site-content''
      \<and> find_tag ''main'' cs \<noteq> None")
    case True
    then obtain inner where i: "find_tag ''main'' cs = Some inner" by blast
    then have "inner \<in> subnodes cs" and t: "is_tag ''main'' inner"
      by (auto simp: find_tag_def dest: find_first_mem find_first_Some)
    then have "inner \<in> subnodes sp" using subnodes_children[OF m] by auto
    moreover have "static_page_content sp (Elem t as cs) = to_str inner"
      using True i by (simp add: static_page_content_fallback[OF f p])
    ultimately show ?thesis using t by blast
  next
    case False
    then have "static_page_content sp (Elem t as cs) = to_str (Elem t as cs)"
      by (auto simp: static_page_content_fallback[OF f p] split: option.splits)
    with m show ?thesis by force
  qed
qed

lemma to_str_opening: "prefix (''<'' @ t) (to_str (Elem t as cs))"
  by (simp add: to_str_def)

lemma process_blog_post_writes:
  assumes "process_blog_post isofmt f sp dir w = (True, w')"
  shows "files w' (post_output_path dir f (clean_slug (split_on CHR ''/'' f)))
     = Some (file_text (extract_post_metadata isofmt sp f) (extract_post_content sp))"
  using assms
  by (auto simp: process_blog_post_def Let_def say_def create_hugo_content_file_def get_str_def
        extract_post_metadata_def split: if_splits)

lemma process_static_page_writes:
  assumes "find_page_container sp = Some found" and "basename (dirname f) \<in> set page_names"
  shows "files (snd (process_static_page isofmt f sp dir w))
       (path_join dir (basename (dirname f) @ ''.html''))
     = Some (file_text ((extract_post_metadata isofmt sp f)\<lparr>md_type := Some ''page''\<rparr>)
               (static_page_content sp found))"
  using assms
  by (simp add: process_static_page_def Let_def say_def create_hugo_content_file_def)

subsection \<open>Whitespace\<close>

lemma strip_left_chars: "strip_left codes s = [] \<Longrightarrow> set s \<subseteq> set (concat codes)"
proof (induction codes s rule: strip_left.induct)
  case (1 codes s)
  show ?case
  proof (cases "List.find (\<lambda>w. w \<noteq> [] \<and> prefix w s) codes")
    case None
    with "1.prems" have "s = []" by (subst (asm) strip_left.simps) simp
    then show ?thesis by simp
  next
    case (Some w)
    then have w: "w \<in> set codes" and p: "prefix w s"
      by (auto simp: find_Some_iff)
    from "1.prems" Some have "strip_left codes (drop (length w) s) = []"
      by (subst (asm) strip_left.simps) simp
    with "1.IH"[OF Some] have "set (drop (length w) s) \<subseteq> set (concat codes)" by simp
    moreover have "s = w @ drop (length w) s" using p by (auto simp: prefix_def)
    then have "set s = set w \<union> set (drop (length w) s)" by (metis set_append)
    moreover have "set w \<subseteq> set (concat codes)" using w by auto
    ultimately show ?thesis by auto
  qed
qed

lemma substitute_xml_plain:
  "CHR ''&'' \<notin> set s \<Longrightarrow> CHR ''<'' \<notin> set s \<Longrightarrow> CHR ''>'' \<notin> set s \<Longrightarrow> substitute_xml s = s"
  by (induction s) (auto simp: substitute_xml_def substitute_char_def)

lemma substitute_xml_space: "lstrip s = [] \<Longrightarrow> substitute_xml s = s"
proof -
  assume "lstrip s = []"
  then have "set s \<subseteq> set (concat whitespace)"
    unfolding lstrip_def by (rule strip_left_chars)
  moreover have "CHR ''&'' \<notin> set (concat whitespace)" "CHR ''<'' \<notin> set (concat whitespace)"
    "CHR ''>'' \<notin> set (concat whitespace)"
    by (simp_all add: whitespace_def)
  ultimately show ?thesis by (intro substitute_xml_plain) auto
qed

lemma strip_blank: "lstrip s = [] \<Longrightarrow> strip s = []"
  by (simp add: strip_def rstrip_def strip_left_Nil)

lemma blank_inner_html:
  "blank_nodes cs \<Longrightarrow> strip (inner_html ''div'' (remove_scripts cs)) = []"
proof (induction cs rule: blank_nodes.induct)
  case 1
  then show ?case by (simp add: inner_html_def strip_blank lstrip_def strip_left_Nil)
next
  case (2 s)
  then show ?case by (simp add: inner_html_def substitute_xml_space strip_blank)
qed simp_all

section \<open>The date taken from the path\<close>

text \<open>
  C1. For a post without a \<^verbatim>\<open>time.entry-date\<close> element whose path holds \<^verbatim>\<open>/2012/03/\<close> the
  date should be \<^verbatim>\<open>2012-03-01T00:00:00+00:00\<close>. The script reads the month from group 1
  of the year-and-month match, which is the year again: for the path
  \<^verbatim>\<open>export/2012/03/trip/index.html\<close> the extracted date is \<^verbatim>\<open>2012-2012-01T00:00:00+00:00\<close>.
\<close>

theorem C1_month_is_year_again:
  "md_date (extract_post_metadata no_iso undated_post ''export/2012/03/trip/index.html'')
     = Some ''2012-2012-01T00:00:00+00:00''"
  by (simp add: str_defs dom_defs meta_defs ex_defs)

section \<open>The type line\<close>

text \<open>
  C2. A static page should be written with the line \<^verbatim>\<open>type = "page"\<close>. The writer never
  reads the \<^verbatim>\<open>type\<close> key that \<^verbatim>\<open>process_static_page\<close> sets: the about page is written
  with the line \<^verbatim>\<open>type = "post"\<close>.
\<close>

theorem C2_page_written_as_post:
  "files (snd (process_static_page no_iso ''export/about/index.html'' about_page
                 ''hugo/content'' empty_world)) ''hugo/content/about.html''
     = Some (join [newline]
               [''+++'',
                ''title = '' @ [dq] @ ''About'' @ [dq],
                ''date = '' @ [dq] @ ''2008-01-01T00:00:00+00:00'' @ [dq],
                ''slug = '' @ [dq] @ ''about'' @ [dq],
                ''type = '' @ [dq] @ ''post'' @ [dq],
                ''+++'']
             @ [newline, newline] @ ''<p>Hello</p>'')"
  by (simp add: str_defs dom_defs meta_defs ser_defs write_defs proc_defs ex_defs Let_def)

section \<open>The content body\<close>

text \<open>
  C3. When the content element is a \<^verbatim>\<open>div\<close> whose class attribute is exactly
  \<^verbatim>\<open>entry-content\<close> (and no attribute name holds a \<^verbatim>\<open>>\<close>), the extracted content is the
  trimmed markup of the element's children with every \<^verbatim>\<open>script\<close> and \<^verbatim>\<open>noscript\<close> element
  removed: it holds no script and not the wrapper tag, and a static page uses it when it
  is not empty. On the fallback paths of a static page, where the document has no
  \<^verbatim>\<open>div.entry-content\<close> and the container is the first \<^verbatim>\<open>main\<close> or else the first
  \<^verbatim>\<open>div.site-content\<close>, the content is the full markup of one element of the document, its
  own opening tag included and nothing removed: the container itself, or the first
  \<^verbatim>\<open>main\<close> inside it when the container's class list mentions \<^verbatim>\<open>site-content\<close> and it
  holds a \<^verbatim>\<open>main\<close>. A post that is written holds the extracted content, and a static page
  that is written holds the page content.
\<close>

theorem C3_content_body_by_path:
  "(\<forall>t as cs.
       find_first is_entry_content sp = Some (Elem t as cs)
       \<and> get_class as = Some [''entry-content'']
       \<and> (\<forall>k v. Attr k v \<in> set as \<longrightarrow> CHR ''>'' \<notin> set k)
     \<longrightarrow> extract_post_content sp = strip (inner_html ''div'' (remove_scripts cs))
         \<and> \<not> has_script (remove_scripts cs)
         \<and> (extract_post_content sp \<noteq> []
              \<longrightarrow> static_page_content sp (Elem t as cs) = extract_post_content sp))
   \<and> (\<forall>t as cs.
       find_first is_entry_content sp = None
       \<and> find_page_container sp = Some (Elem t as cs)
     \<longrightarrow> static_page_content sp (Elem t as cs) =
           (if contains (str_list (case get_class as of Some ts \<Rightarrow> ts | None \<Rightarrow> []))
                 ''site-content''
            then (case find_tag ''main'' cs of
                    Some inner \<Rightarrow> to_str inner
                  | None \<Rightarrow> to_str (Elem t as cs))
            else to_str (Elem t as cs))
         \<and> (\<exists>e. e \<in> subnodes sp \<and> (is_tag t e \<or> is_tag ''main'' e)
                \<and> static_page_content sp (Elem t as cs) = to_str e)
         \<and> (prefix (''<'' @ t) (static_page_content sp (Elem t as cs))
              \<or> prefix ''<main'' (static_page_content sp (Elem t as cs))))
   \<and> (\<forall>w'. process_blog_post isofmt f sp dir w = (True, w')
     \<longrightarrow> files w' (post_output_path dir f (clean_slug (split_on CHR ''/'' f)))
         = Some (file_text (extract_post_metadata isofmt sp f) (extract_post_content sp)))
   \<and> (\<forall>found. find_page_container sp = Some found \<and> basename (dirname f) \<in> set page_names
     \<longrightarrow> files (snd (process_static_page isofmt f sp dir w))
           (path_join dir (basename (dirname f) @ ''.html''))
         = Some (file_text ((extract_post_metadata isofmt sp f)\<lparr>md_type := Some ''page''\<rparr>)
                   (static_page_content sp found)))"
proof (intro conjI allI impI)
  fix t as cs
  assume a: "find_first is_entry_content sp = Some (Elem t as cs)
       \<and> get_class as = Some [''entry-content'']
       \<and> (\<forall>k v. Attr k v \<in> set as \<longrightarrow> CHR ''>'' \<notin> set k)"
  then have f: "find_first is_entry_content sp = Some (Elem t as cs)"
    and c: "get_class as = Some [''entry-content'']"
    and n: "\<forall>k v. Attr k v \<in> set as \<longrightarrow> CHR ''>'' \<notin> set k"
    by blast+
  show "extract_post_content sp = strip (inner_html ''div'' (remove_scripts cs))"
    by (rule extract_post_content_plain[OF f c n])
  show "\<not> has_script (remove_scripts cs)" by (rule no_script_left)
  assume e: "extract_post_content sp \<noteq> []"
  show "static_page_content sp (Elem t as cs) = extract_post_content sp"
    by (rule static_page_content_plain[OF f c e])
next
  fix t as cs
  assume a: "find_first is_entry_content sp = None
       \<and> find_page_container sp = Some (Elem t as cs)"
  then have f: "find_first is_entry_content sp = None"
    and p: "find_page_container sp = Some (Elem t as cs)"
    by blast+
  show "static_page_content sp (Elem t as cs) =
           (if contains (str_list (case get_class as of Some ts \<Rightarrow> ts | None \<Rightarrow> []))
                 ''site-content''
            then (case find_tag ''main'' cs of
                    Some inner \<Rightarrow> to_str inner
                  | None \<Rightarrow> to_str (Elem t as cs))
            else to_str (Elem t as cs))"
    by (rule static_page_content_fallback[OF f p])
  obtain e where e: "e \<in> subnodes sp" "is_tag t e \<or> is_tag ''main'' e"
    "static_page_content sp (Elem t as cs) = to_str e"
    using static_page_content_element[OF f p] by blast
  then show "\<exists>e. e \<in> subnodes sp \<and> (is_tag t e \<or> is_tag ''main'' e)
                \<and> static_page_content sp (Elem t as cs) = to_str e"
    by blast
  from e(2) show "prefix (''<'' @ t) (static_page_content sp (Elem t as cs))
              \<or> prefix ''<main'' (static_page_content sp (Elem t as cs))"
  proof
    assume "is_tag t e"
    then obtain as' cs' where "e = Elem t as' cs'" by (cases e) simp_all
    then show ?thesis unfolding e(3) using to_str_opening[of t as' cs'] by simp
  next
    assume "is_tag ''main'' e"
    then obtain as' cs' where "e = Elem ''main'' as' cs'" by (cases e) simp_all
    then show ?thesis unfolding e(3) using to_str_opening[of "''main''" as' cs'] by simp
  qed
next
  fix w'
  assume "process_blog_post isofmt f sp dir w = (True, w')"
  then show "files w' (post_output_path dir f (clean_slug (split_on CHR ''/'' f)))
         = Some (file_text (extract_post_metadata isofmt sp f) (extract_post_content sp))"
    by (rule process_blog_post_writes)
next
  fix found
  assume "find_page_container sp = Some found \<and> basename (dirname f) \<in> set page_names"
  then have p: "find_page_container sp = Some found" and b: "basename (dirname f) \<in> set page_names"
    by blast+
  show "files (snd (process_static_page isofmt f sp dir w))
           (path_join dir (basename (dirname f) @ ''.html''))
         = Some (file_text ((extract_post_metadata isofmt sp f)\<lparr>md_type := Some ''page''\<rparr>)
                   (static_page_content sp found))"
    by (rule process_static_page_writes[OF p b])
qed

text \<open>
  A content element with an \<^verbatim>\<open>id\<close> and a script gives the paragraph alone; a \<^verbatim>\<open>main\<close>
  element and a \<^verbatim>\<open>div.site-content\<close> are written whole, scripts included; of a \<^verbatim>\<open>main\<close>
  of class \<^verbatim>\<open>site-content\<close> that holds a \<^verbatim>\<open>main\<close>, the inner one is written whole.
\<close>

theorem C3_content_body_witness:
  "find_first is_entry_content scripted_post
     = Some (Elem ''div'' [Attr ''id'' ''c'', Class [''entry-content'']]
               [Elem ''script'' [] [Text ''track()''], Elem ''p'' [] [Text ''Hello'']])
   \<and> extract_post_content scripted_post = ''<p>Hello</p>''
   \<and> static_page_content scripted_post
         (Elem ''div'' [Attr ''id'' ''c'', Class [''entry-content'']]
            [Elem ''script'' [] [Text ''track()''], Elem ''p'' [] [Text ''Hello'']])
       = ''<p>Hello</p>''
   \<and> find_first is_entry_content main_page = None
   \<and> static_page_content main_page
         (Elem ''main'' [] [Elem ''script'' [] [Text ''track()''], Elem ''p'' [] [Text ''Hello'']])
       = ''<main><script>track()</script><p>Hello</p></main>''
   \<and> find_first is_entry_content site_page = None
   \<and> static_page_content site_page
         (Elem ''div'' [Class [''site-content'']]
            [Elem ''script'' [] [Text ''track()''], Elem ''p'' [] [Text ''Hello'']])
       = ''<div class='' @ [dq] @ ''site-content'' @ [dq]
         @ ''><script>track()</script><p>Hello</p></div>''
   \<and> find_first is_entry_content nested_main_page = None
   \<and> static_page_content nested_main_page
         (Elem ''main'' [Class [''site-content'']]
            [Elem ''script'' [] [Text ''track()''],
             Elem ''main'' [] [Elem ''script'' [] [Text ''more()''], Elem ''p'' [] [Text ''Hello'']]])
       = ''<main><script>more()</script><p>Hello</p></main>''"
proof -
  let ?as = "[Attr ''id'' ''c'', Class [''entry-content'']]"
  let ?cs = "[Elem ''script'' [] [Text ''track()''], Elem ''p'' [] [Text ''Hello'']]"
  let ?sc = "[Class [''site-content'']]"
  let ?in = "Elem ''main'' [] [Elem ''script'' [] [Text ''more()''], Elem ''p'' [] [Text ''Hello'']]"
  let ?ss = "[Elem ''script'' [] [Text ''track()''], ?in]"
  have f: "find_first is_entry_content scripted_post = Some (Elem ''div'' ?as ?cs)"
    by (simp add: scripted_post_def is_entry_content_def)
  have c: "get_class ?as = Some [''entry-content'']" by simp
  have n: "\<forall>k v. Attr k v \<in> set ?as \<longrightarrow> CHR ''>'' \<notin> set k" by simp
  have v: "strip (inner_html ''div'' (remove_scripts ?cs)) = ''<p>Hello</p>''"
    by (simp add: str_defs inner_html_def substitute_xml_def substitute_char_def
          attrs_string_def void_tags_def)
  have e: "extract_post_content scripted_post = ''<p>Hello</p>''"
    using C3_content_body_by_path[of scripted_post] f c n v by force
  have s: "static_page_content scripted_post (Elem ''div'' ?as ?cs) = ''<p>Hello</p>''"
    using C3_content_body_by_path[of scripted_post] f c n e by force
  have g: "find_first is_entry_content main_page = None"
    by (simp add: main_page_def is_entry_content_def)
  have gp: "find_page_container main_page = Some (Elem ''main'' [] ?cs)"
    by (simp add: main_page_def find_page_container_def is_entry_content_def find_tag_def)
  have h: "\<not> contains (str_list (case get_class [] of Some ts \<Rightarrow> ts | None \<Rightarrow> [])) ''site-content''"
    by (simp add: str_list_def)
  have m: "static_page_content main_page (Elem ''main'' [] ?cs) = to_str (Elem ''main'' [] ?cs)"
    using C3_content_body_by_path[of main_page] g gp h by force
  have t: "to_str (Elem ''main'' [] ?cs) = ''<main><script>track()</script><p>Hello</p></main>''"
    by (simp add: to_str_def substitute_xml_def substitute_char_def attrs_string_def
          void_tags_def)
  have ks: "contains (str_list (case get_class ?sc of Some ts \<Rightarrow> ts | None \<Rightarrow> [])) ''site-content''"
    by (simp add: str_list_def repr_str_def repr_char_def Let_def)
  have k: "find_first is_entry_content site_page = None"
    by (simp add: site_page_def is_entry_content_def)
  have kp: "find_page_container site_page = Some (Elem ''div'' ?sc ?cs)"
    by (simp add: site_page_def find_page_container_def is_entry_content_def find_tag_def
          find_tag_class_def)
  have km: "find_tag ''main'' ?cs = None"
    by (simp add: find_tag_def)
  have q: "static_page_content site_page (Elem ''div'' ?sc ?cs) = to_str (Elem ''div'' ?sc ?cs)"
    using C3_content_body_by_path[of site_page] k kp ks km by force
  have u: "to_str (Elem ''div'' ?sc ?cs)
      = ''<div class='' @ [dq] @ ''site-content'' @ [dq]
        @ ''><script>track()</script><p>Hello</p></div>''"
    by (simp add: to_str_def substitute_xml_def substitute_char_def attrs_string_def
          quoted_attribute_value_def void_tags_def)
  have j: "find_first is_entry_content nested_main_page = None"
    by (simp add: nested_main_page_def is_entry_content_def)
  have jp: "find_page_container nested_main_page = Some (Elem ''main'' ?sc ?ss)"
    by (simp add: nested_main_page_def find_page_container_def is_entry_content_def find_tag_def)
  have jm: "find_tag ''main'' ?ss = Some ?in"
    by (simp add: find_tag_def)
  have r: "static_page_content nested_main_page (Elem ''main'' ?sc ?ss) = to_str ?in"
    using C3_content_body_by_path[of nested_main_page] j jp ks jm by force
  have x: "to_str ?in = ''<main><script>more()</script><p>Hello</p></main>''"
    by (simp add: to_str_def substitute_xml_def substitute_char_def attrs_string_def
          void_tags_def)
  show ?thesis using f e s g m t k q u j r x by simp
qed

text \<open>
  On the \<^verbatim>\<open>main\<close> fallback the file of the about page holds the wrapper tag and the
  script.
\<close>

theorem C3_main_fallback_counterexample:
  "files (snd (process_static_page no_iso ''export/about/index.html'' main_page
                 ''hugo/content'' empty_world)) ''hugo/content/about.html''
     = Some (join [newline]
               [''+++'',
                ''title = '' @ [dq] @ ''Untitled'' @ [dq],
                ''date = '' @ [dq] @ ''2008-01-01T00:00:00+00:00'' @ [dq],
                ''slug = '' @ [dq] @ ''about'' @ [dq],
                ''type = '' @ [dq] @ ''post'' @ [dq],
                ''+++'']
             @ [newline, newline] @ ''<main><script>track()</script><p>Hello</p></main>'')"
  by (simp add: str_defs dom_defs meta_defs ser_defs write_defs proc_defs ex_defs Let_def)

section \<open>The wrapper of the content element\<close>

text \<open>
  C4. Content extraction should strip the opening tag of the \<^verbatim>\<open>div.entry-content\<close>
  whatever else that tag holds. The pattern asks for the literal text
  \<^verbatim>\<open>class="entry-content"\<close>, so for \<^verbatim>\<open><div class="entry-content clearfix">\<close> the opening tag
  stays while the closing \<^verbatim>\<open></div>\<close> is removed.
\<close>

theorem C4_second_class_keeps_wrapper:
  "extract_post_content two_class_post
     = ''<div class='' @ [dq] @ ''entry-content clearfix'' @ [dq] @ ''><p>Hi</p>''"
  by (simp add: str_defs dom_defs ser_defs ex_defs Let_def)

section \<open>The path scanner\<close>

text \<open>
  C5. The driver should take as post candidates the paths of the shape
  \<^verbatim>\<open>.../<year>/<digits>/<segment>/index.html\<close> and pass over pagination pages. It tests
  only that the fourth segment from the end begins with four digits: the second page of
  a year archive, \<^verbatim>\<open>export/2012/page/2/index.html\<close>, and a path with a segment of five
  digits are candidates, and the archive page, holding a post's markup, is migrated to
  \<^verbatim>\<open>posts/2.html\<close> and counted.
\<close>

theorem C5_year_archive_page_migrated:
  "is_post_candidate ''export/2012/page/2/index.html''
   \<and> \<not> spec_post_path ''export/2012/page/2/index.html''
   \<and> is_post_candidate ''export/20123/03/trip/index.html''
   \<and> \<not> spec_post_path ''export/20123/03/trip/index.html''
   \<and> process_posts no_iso ''hugo/content'' [(''export/2012/page/2/index.html'', undated_post)]
         (empty_world, 0)
       = (\<lparr> files = [''hugo/content/posts/2.html'' \<mapsto>
              join [newline]
                [''+++'',
                 ''title = '' @ [dq] @ ''Trip'' @ [dq],
                 ''date = '' @ [dq] @ ''2008-01-01T00:00:00+00:00'' @ [dq],
                 ''slug = '' @ [dq] @ ''2'' @ [dq],
                 ''categories = ['' @ [dq] @ ''Travel'' @ [dq] @ '']'',
                 ''type = '' @ [dq] @ ''post'' @ [dq],
                 ''+++'']
              @ [newline, newline] @ ''<p>Hello</p>''],
            console = [''Migrated: export/2012/page/2/index.html -> ''
                       @ ''hugo/content/posts/2.html''] \<rparr>, 1)"
proof -
  have a: "is_post_candidate ''export/2012/page/2/index.html''"
    by (simp add: is_post_candidate_def str_defs)
  have b: "\<not> spec_post_path ''export/2012/page/2/index.html''"
    by (simp add: spec_post_path_def str_defs)
  have c: "is_post_candidate ''export/20123/03/trip/index.html''"
    by (simp add: is_post_candidate_def str_defs)
  have d: "\<not> spec_post_path ''export/20123/03/trip/index.html''"
    by (simp add: spec_post_path_def str_defs)
  have e: "process_blog_post no_iso ''export/2012/page/2/index.html'' undated_post
        ''hugo/content'' empty_world
      = (True,
         \<lparr> files = [''hugo/content/posts/2.html'' \<mapsto>
              join [newline]
                [''+++'',
                 ''title = '' @ [dq] @ ''Trip'' @ [dq],
                 ''date = '' @ [dq] @ ''2008-01-01T00:00:00+00:00'' @ [dq],
                 ''slug = '' @ [dq] @ ''2'' @ [dq],
                 ''categories = ['' @ [dq] @ ''Travel'' @ [dq] @ '']'',
                 ''type = '' @ [dq] @ ''post'' @ [dq],
                 ''+++'']
              @ [newline, newline] @ ''<p>Hello</p>''],
            console = [''Migrated: export/2012/page/2/index.html -> ''
                       @ ''hugo/content/posts/2.html''] \<rparr>)"
    by (simp add: str_defs dom_defs meta_defs ser_defs write_defs proc_defs ex_defs Let_def)
  show ?thesis using a b c d by (simp add: e)
qed

section \<open>Categories and tags\<close>

text \<open>
  C6. A class \<^verbatim>\<open>category-x\<close> should give the name of \<^verbatim>\<open>x\<close>, the prefix stripped. The
  script removes every occurrence of \<^verbatim>\<open>category-\<close>, not the prefix alone: the class
  \<^verbatim>\<open>category-category-theory\<close> gives \<^verbatim>\<open>Theory\<close>, where stripping the prefix gives
  \<^verbatim>\<open>Category Theory\<close>.
\<close>

theorem C6_prefix_removed_everywhere:
  "extract_taxonomy [Elem ''article'' [Class [''category-category-theory'', ''tag-europe'']] []]
     = (Some [''Theory''], Some [''Europe''])
   \<and> spec_category_name ''category-category-theory'' = ''Category Theory''"
  by (simp add: str_defs dom_defs meta_defs spec_category_name_def)

section \<open>The title\<close>

text \<open>
  C7. The title is the trimmed text of the first \<^verbatim>\<open>h1.entry-title\<close>; without one it is
  the text of the first \<^verbatim>\<open>title\<close> element with the site name removed wherever it stands
  (\<^verbatim>\<open>replace\<close>, not a suffix strip) and then trimmed, so a text that holds the site name
  once gives the text around it, and a text that does not hold it is only trimmed; with
  neither element it is \<^verbatim>\<open>Untitled\<close>.
\<close>

theorem C7_site_name_removed_everywhere:
  "(\<forall>e. find_tag_class ''h1'' ''entry-title'' sp = Some e
        \<longrightarrow> extract_title sp = strip (get_text e))
   \<and> (\<forall>e. find_tag_class ''h1'' ''entry-title'' sp = None \<and> find_tag ''title'' sp = Some e
        \<longrightarrow> extract_title sp = strip (replace site_suffix [] (get_text e)))
   \<and> (\<forall>e x y. find_tag_class ''h1'' ''entry-title'' sp = None \<and> find_tag ''title'' sp = Some e
          \<and> get_text e = x @ site_suffix @ y
          \<and> \<not> contains (x @ butlast site_suffix) site_suffix \<and> \<not> contains y site_suffix
        \<longrightarrow> extract_title sp = strip (x @ y))
   \<and> (\<forall>e. find_tag_class ''h1'' ''entry-title'' sp = None \<and> find_tag ''title'' sp = Some e
          \<and> \<not> contains (get_text e) site_suffix
        \<longrightarrow> extract_title sp = strip (get_text e))
   \<and> (find_tag_class ''h1'' ''entry-title'' sp = None \<and> find_tag ''title'' sp = None
        \<longrightarrow> extract_title sp = ''Untitled'')"
proof -
  have ne: "site_suffix \<noteq> []" by (simp add: site_suffix_def)
  have mid: "extract_title sp = strip (x @ y)"
    if "find_tag_class ''h1'' ''entry-title'' sp = None" and "find_tag ''title'' sp = Some e"
      and "get_text e = x @ site_suffix @ y"
      and "\<not> contains (x @ butlast site_suffix) site_suffix" and "\<not> contains y site_suffix"
    for e x y
    using that replace_only_occurrence[OF ne that(4,5)] by (simp add: extract_title_def)
  have none: "extract_title sp = strip (get_text e)"
    if "find_tag_class ''h1'' ''entry-title'' sp = None" and "find_tag ''title'' sp = Some e"
      and "\<not> contains (get_text e) site_suffix"
    for e
    using that replace_absent[OF that(3)] by (simp add: extract_title_def)
  show ?thesis
    using mid none by (auto simp: extract_title_def)
qed

text \<open>The specification's example: the title \<^verbatim>\<open>Foo\<close> followed by the site name gives \<^verbatim>\<open>Foo\<close>.\<close>

theorem C7_foo_title_witness:
  "find_tag_class ''h1'' ''entry-title'' foo_page = None
   \<and> find_tag ''title'' foo_page = Some (Elem ''title'' [] [Text (''Foo'' @ site_suffix)])
   \<and> \<not> contains (''Foo'' @ butlast site_suffix) site_suffix
   \<and> extract_title foo_page = ''Foo''"
proof -
  let ?e = "Elem ''title'' [] [Text (''Foo'' @ site_suffix)]"
  have h: "find_tag_class ''h1'' ''entry-title'' foo_page = None"
    by (simp add: foo_page_def find_tag_class_def)
  have t: "find_tag ''title'' foo_page = Some ?e"
    by (simp add: foo_page_def find_tag_def)
  have g: "get_text ?e = ''Foo'' @ site_suffix @ []"
    by (simp add: get_text_def string_containers_def)
  have n: "\<not> contains (''Foo'' @ butlast site_suffix) site_suffix"
    by (simp add: site_suffix_def)
  have m: "\<not> contains [] site_suffix"
    by (simp add: site_suffix_def)
  have e: "extract_title foo_page = strip (''Foo'' @ [])"
    using C7_site_name_removed_everywhere[of foo_page] h t g n m by blast
  have s: "strip ''Foo'' = ''Foo''"
    by (simp add: str_defs)
  show ?thesis using h t n e s by simp
qed

text \<open>
  The site name is removed in the middle of the text as well, where stripping a suffix
  leaves the text as it is.
\<close>

theorem C7_site_name_in_the_middle_counterexample:
  "extract_title archive_page = ''Archive (page 2)''
   \<and> spec_title archive_page = ''Archive'' @ site_suffix @ '' (page 2)''
   \<and> extract_title archive_page \<noteq> spec_title archive_page"
  by (simp add: archive_page_def dom_defs extract_title_def spec_title_def remove_suffix_def
        site_suffix_def str_defs)

section \<open>Reading the front matter back\<close>

text \<open>
  C8. Reading a written file back should give the title, the date and the slug that
  were passed to the writer. The writer escapes the double quotes of the title and of
  nothing else: a date that holds a double quote is written as it is, the quoted string
  ends at that quote, and the date is not read back, while the title is. With a line
  feed as well, two metadata that differ in date and slug are written as the same file.
\<close>

theorem C8_quoted_date_not_read_back:
  "files (create_hugo_content_file quoted_date_md ''<p>Hi</p>'' ''hugo/content/posts/trip.html''
            empty_world) ''hugo/content/posts/trip.html''
     = Some (join [newline]
               [''+++'',
                ''title = '' @ [dq] @ ''Say '' @ [bslash, dq] @ ''hi'' @ [bslash, dq] @ [dq],
                ''date = '' @ [dq] @ ''1'' @ [dq] @ ''2'' @ [dq],
                ''slug = '' @ [dq] @ ''trip'' @ [dq],
                ''type = '' @ [dq] @ ''post'' @ [dq],
                ''+++'']
             @ [newline, newline] @ ''<p>Hi</p>'')
   \<and> map_option read_front_matter
         (files (create_hugo_content_file quoted_date_md ''<p>Hi</p>''
                   ''hugo/content/posts/trip.html'' empty_world) ''hugo/content/posts/trip.html'')
       = Some (Some (''Say '' @ [dq] @ ''hi'' @ [dq]), None, Some ''trip'')
   \<and> md_date quoted_date_md = Some (''1'' @ [dq] @ ''2'')
   \<and> file_text clash_a ''<p>Hi</p>'' = file_text clash_b ''<p>Hi</p>''
   \<and> md_date clash_a \<noteq> md_date clash_b
   \<and> md_slug clash_a \<noteq> md_slug clash_b"
  by (simp add: quoted_date_md_def clash_a_def clash_b_def empty_world_def write_defs
        startswith_def read_front_matter_def read_field_def)

section \<open>Posts without content\<close>

text \<open>
  C9. A post whose \<^verbatim>\<open>div.entry-content\<close> holds only whitespace should be skipped. When
  the element carries a second class its opening tag is not stripped (see C4), the
  content is that tag, and the post is written.
\<close>

theorem C9_blank_post_written:
  "process_blog_post no_iso ''export/2012/03/trip/index.html'' blank_two_class_post
     ''hugo/content'' empty_world
   = (True,
      \<lparr> files = [''hugo/content/posts/2012/2012/trip.html'' \<mapsto>
           join [newline]
             [''+++'',
              ''title = '' @ [dq] @ ''Untitled'' @ [dq],
              ''date = '' @ [dq] @ ''2012-2012-01T00:00:00+00:00'' @ [dq],
              ''slug = '' @ [dq] @ ''trip'' @ [dq],
              ''type = '' @ [dq] @ ''post'' @ [dq],
              ''+++'']
           @ [newline, newline]
           @ ''<div class='' @ [dq] @ ''entry-content clearfix'' @ [dq] @ ''>''],
        console = [''Migrated: export/2012/03/trip/index.html -> ''
                   @ ''hugo/content/posts/2012/2012/trip.html''] \<rparr>)"
  by (simp add: str_defs dom_defs meta_defs ser_defs write_defs proc_defs ex_defs Let_def)

section \<open>Quotes in the front matter\<close>



section \<open>Further properties\<close>

text \<open>
  A post with an \<^verbatim>\<open>article\<close> element whose content element has the class attribute
  \<^verbatim>\<open>entry-content\<close> alone and holds nothing, or whitespace text alone, is skipped: the call
  returns false and prints the warning, no file is written, and the driver goes on with
  the counter unchanged.
\<close>

theorem X1_blank_plain_post_skipped:
  assumes "find_tag ''article'' sp \<noteq> None"
    and "find_first is_entry_content sp = Some (Elem t as cs)"
    and "get_class as = Some [''entry-content'']"
    and "\<forall>k v. Attr k v \<in> set as \<longrightarrow> CHR ''>'' \<notin> set k"
    and "blank_nodes cs"
  shows "process_blog_post isofmt f sp dir w
           = (False, say (''Warning: No content found in '' @ f) w)
    \<and> files (snd (process_blog_post isofmt f sp dir w)) = files w
    \<and> (is_post_candidate f \<longrightarrow>
          process_posts isofmt dir ((f, sp) # rest) (w, k)
            = process_posts isofmt dir rest (say (''Warning: No content found in '' @ f) w, k))"
proof -
  have "extract_post_content sp = strip (inner_html ''div'' (remove_scripts cs))"
    by (rule extract_post_content_plain[OF assms(2,3,4)])
  also have "\<dots> = []"
    by (rule blank_inner_html[OF assms(5)])
  finally have e: "extract_post_content sp = []" .
  have p: "process_blog_post isofmt f sp dir w
      = (False, say (''Warning: No content found in '' @ f) w)"
  proof -
    obtain a where a: "find_tag ''article'' sp = Some a" using assms(1) by blast
    show ?thesis
      by (simp add: process_blog_post_def Let_def a assms(2) e strip_def lstrip_def rstrip_def
            strip_left_Nil)
  qed
  show ?thesis
    unfolding p by (simp add: say_def p)
qed

text \<open>The post with a blank content element, run through the driver's loop.\<close>

theorem X1_blank_post_witness:
  "find_tag ''article'' blank_post \<noteq> None
   \<and> process_blog_post no_iso ''export/2012/03/trip/index.html'' blank_post ''hugo/content''
         empty_world
       = (False, \<lparr> files = Map.empty,
                   console = [''Warning: No content found in export/2012/03/trip/index.html''] \<rparr>)
   \<and> process_posts no_iso ''hugo/content'' [(''export/2012/03/trip/index.html'', blank_post)]
         (empty_world, 0)
       = (\<lparr> files = Map.empty,
            console = [''Warning: No content found in export/2012/03/trip/index.html''] \<rparr>, 0)"
proof -
  let ?as = "[Class [''entry-content'']]"
  let ?cs = "[Text [CHR 0xC2, CHR 0xA0, newline]]"
  have a: "find_tag ''article'' blank_post \<noteq> None"
    by (simp add: blank_post_def find_tag_def)
  have f: "find_first is_entry_content blank_post = Some (Elem ''div'' ?as ?cs)"
    by (simp add: blank_post_def is_entry_content_def)
  have c: "get_class ?as = Some [''entry-content'']" by simp
  have n: "\<forall>k v. Attr k v \<in> set ?as \<longrightarrow> CHR ''>'' \<notin> set k" by simp
  have b: "blank_nodes ?cs" by (simp add: str_defs)
  have i: "is_post_candidate ''export/2012/03/trip/index.html''"
    by (simp add: is_post_candidate_def str_defs)
  show ?thesis
    using a i X1_blank_plain_post_skipped[OF a f c n b, of no_iso
        "''export/2012/03/trip/index.html''" "''hugo/content''" empty_world "[]" 0]
    by (simp add: say_def empty_world_def)
qed

text \<open>
  Without a \<^verbatim>\<open>time.entry-date\<close> element and without a year-and-month pair in the path, the
  date is the default \<^verbatim>\<open>2008-01-01T00:00:00+00:00\<close>.
\<close>

theorem X2_default_date:
  assumes "find_tag_class ''time'' ''entry-date'' sp = None" and "search_year_month f = None"
  shows "md_date (extract_post_metadata isofmt sp f) = Some ''2008-01-01T00:00:00+00:00''"
  using assms
  by (simp add: extract_post_metadata_def extract_date_def date_from_path_def
        split: option.splits)

text \<open>The about page has no date of its own.\<close>

theorem X2_default_date_witness:
  "find_tag_class ''time'' ''entry-date'' about_page = None
   \<and> search_year_month ''export/about/index.html'' = None
   \<and> md_date (extract_post_metadata no_iso about_page ''export/about/index.html'')
       = Some ''2008-01-01T00:00:00+00:00''"
proof -
  have t: "find_tag_class ''time'' ''entry-date'' about_page = None"
    by (simp add: about_page_def find_tag_class_def)
  have s: "search_year_month ''export/about/index.html'' = None"
    by (simp add: isdigit_def)
  show ?thesis using t s X2_default_date[OF t s, of no_iso] by simp
qed

text \<open>
  The specification's example: the classes \<^verbatim>\<open>category-travel\<close>, \<^verbatim>\<open>category-uncategorized\<close>
  and \<^verbatim>\<open>tag-europe\<close> give the category \<^verbatim>\<open>Travel\<close> and the tag \<^verbatim>\<open>Europe\<close>.
\<close>

theorem X3_travel_and_europe:
  "extract_taxonomy
     [Elem ''article'' [Class [''category-travel'', ''category-uncategorized'', ''tag-europe'']] []]
   = (Some [''Travel''], Some [''Europe''])"
  by (simp add: str_defs dom_defs meta_defs)

text \<open>
  The writer does not read the \<^verbatim>\<open>type\<close> key: whatever it holds, the front matter ends
  with the line \<^verbatim>\<open>type = "post"\<close> and the closing \<^verbatim>\<open>+++\<close>.
\<close>

theorem X4_type_key_not_read:
  "front_matter (md\<lparr>md_type := ty\<rparr>) = front_matter md
   \<and> last (front_matter md) = ''+++''
   \<and> last (butlast (front_matter md)) = ''type = '' @ [dq] @ ''post'' @ [dq]"
  by (simp add: front_matter_def butlast_append split: option.splits)

text \<open>
  Every path of the shape \<^verbatim>\<open>.../<year>/<digits>/<segment>/index.html\<close> with a year of four
  digits is a post candidate; a path with fewer than four segments is not; and a path
  that is not a candidate leaves the world and the counter as they are.
\<close>

theorem X5_pattern_paths_are_candidates:
  "(spec_post_path p \<longrightarrow> is_post_candidate p)
   \<and> (length (split_on CHR ''/'' p) < 4 \<longrightarrow> \<not> is_post_candidate p)
   \<and> (\<not> is_post_candidate p \<longrightarrow>
        process_posts isofmt dir ((p, sp) # rest) (w, k) = process_posts isofmt dir rest (w, k))"
proof -
  have short: "\<not> is_post_candidate p" if "length (split_on CHR ''/'' p) < 4"
    using that unfolding is_post_candidate_iff Let_def by simp
  show ?thesis
    using spec_post_path_candidate[of p] short by simp
qed

text \<open>A dated post path is taken; the top-level \<^verbatim>\<open>index.html\<close> is passed over.\<close>

theorem X5_pattern_paths_witness:
  "spec_post_path ''export/2012/03/trip/index.html''
   \<and> is_post_candidate ''export/2012/03/trip/index.html''
   \<and> length (split_on CHR ''/'' ''export/index.html'') < 4
   \<and> \<not> is_post_candidate ''export/index.html''
   \<and> process_posts no_iso ''hugo/content'' [(''export/index.html'', undated_post)] (empty_world, 0)
       = (empty_world, 0)"
  using X5_pattern_paths_are_candidates[of "''export/2012/03/trip/index.html''"]
    X5_pattern_paths_are_candidates[of "''export/index.html''" no_iso "''hugo/content''"
      undated_post "[]" empty_world 0]
  by (simp add: spec_post_path_def isdigit_def)

text \<open>
  Title escaping is injective, and for a title, a date and a slug that hold no line feed
  and do not end with a backslash, the date and the slug holding no double quote,
  reading the written file back gives the values that were passed to the writer.
\<close>

theorem X6_round_trip_of_plain_values:
  assumes "newline \<notin> set (get_str (md_title md))"
    and "newline \<notin> set (get_str (md_date md))"
    and "newline \<notin> set (get_str (md_slug md))"
    and "get_str (md_title md) = [] \<or> last (get_str (md_title md)) \<noteq> bslash"
    and "dq \<notin> set (get_str (md_date md))"
    and "get_str (md_date md) = [] \<or> last (get_str (md_date md)) \<noteq> bslash"
    and "dq \<notin> set (get_str (md_slug md))"
    and "get_str (md_slug md) = [] \<or> last (get_str (md_slug md)) \<noteq> bslash"
  shows "inj escape_title
    \<and> map_option read_front_matter
        (files (create_hugo_content_file md content output_path w) output_path)
      = Some (Some (get_str (md_title md)), Some (get_str (md_date md)), Some (get_str (md_slug md)))"
  using read_front_matter_file_text[OF assms] escape_title_inj
  by (simp add: create_hugo_content_file_def)

text \<open>The round trip on metadata with double quotes in the title.\<close>

theorem X6_round_trip_witness:
  "newline \<notin> set (get_str (md_title plain_md))
   \<and> dq \<notin> set (get_str (md_date plain_md))
   \<and> dq \<notin> set (get_str (md_slug plain_md))
   \<and> map_option read_front_matter
        (files (create_hugo_content_file plain_md ''<p>Hi</p>'' ''hugo/content/posts/trip.html''
                  empty_world) ''hugo/content/posts/trip.html'')
      = Some (Some (''Say '' @ [dq] @ ''hi'' @ [dq]), Some ''2012-03-15T10:00:00+0000'',
              Some ''trip'')"
proof -
  have h: "newline \<notin> set (get_str (md_title plain_md))"
    "newline \<notin> set (get_str (md_date plain_md))"
    "newline \<notin> set (get_str (md_slug plain_md))"
    "get_str (md_title plain_md) = [] \<or> last (get_str (md_title plain_md)) \<noteq> bslash"
    "dq \<notin> set (get_str (md_date plain_md))"
    "get_str (md_date plain_md) = [] \<or> last (get_str (md_date plain_md)) \<noteq> bslash"
    "dq \<notin> set (get_str (md_slug plain_md))"
    "get_str (md_slug plain_md) = [] \<or> last (get_str (md_slug plain_md)) \<noteq> bslash"
    by (simp_all add: plain_md_def get_str_def)
  show ?thesis
    using h X6_round_trip_of_plain_values[OF h, of "''<p>Hi</p>''" "''hugo/content/posts/trip.html''"
        empty_world]
    by (simp add: plain_md_def get_str_def)
qed

end
